theory Spec2Isabelle
  imports Complex_Main "HOL-Library.Multiset"
begin

section \<open>Conventions\<close>

text \<open>
  The repository is a Django application. A database table is a list of rows in the
  order the database scans them, a primary key is a natural number, a nullable column
  is an option, and a foreign key holds the primary key of the row it points to.
  Python's \<open>float\<close> and \<open>Decimal\<close> columns are real numbers, Python's \<open>int\<close> is
  \<open>int\<close>, a timestamp is a number of seconds. An exception is a value of \<open>py_error\<close>.
\<close>

datatype py_error =
    DoesNotExist
  | MultipleObjectsReturned
  | AttributeError
  | ZeroDivisionError
  | ValueError
  | IntegrityError

text \<open>
  \<open>d.get(k, default)\<close> on a Python dictionary written as a literal, and the assignment
  \<open>d[k] = v\<close> on an insertion-ordered dictionary: an existing key keeps its place, a
  new key goes last.
\<close>

definition dict_get :: "('k \<times> 'v) list \<Rightarrow> 'k \<Rightarrow> 'v \<Rightarrow> 'v" where
  "dict_get d k dflt = (case map_of d k of None \<Rightarrow> dflt | Some v \<Rightarrow> v)"

fun dict_set :: "('k \<times> 'v) list \<Rightarrow> 'k \<Rightarrow> 'v \<Rightarrow> ('k \<times> 'v) list" where
  "dict_set [] k v = [(k, v)]"
| "dict_set ((k', v') # d) k v =
     (if k' = k then (k, v) # d else (k', v') # dict_set d k v)"

text \<open>
  Python's \<open>int(s)\<close> on a string, which is what an integer column of Django does with a
  value it is given (\<open>IntegerField.get_prep_value\<close>). A character is a code point below
  256. White space around the number is dropped, a sign may come first, the digits are
  decimal and may be separated by single underscores; any other string raises
  \<open>ValueError\<close>, and so does, in CPython from 3.11 on, a string of more than 4300 digits.
\<close>

definition is_space :: "char \<Rightarrow> bool" where
  "is_space c \<longleftrightarrow> of_char c \<in> set [9, 10, 11, 12, 13, 28, 29, 30, 31, 32, 133, 160 :: nat]"

definition is_digit :: "char \<Rightarrow> bool" where
  "is_digit c \<longleftrightarrow> (48::nat) \<le> of_char c \<and> of_char c \<le> (57::nat)"

definition strip :: "string \<Rightarrow> string" where
  "strip s = rev (dropWhile is_space (rev (dropWhile is_space s)))"

fun digits_value :: "bool \<Rightarrow> nat \<Rightarrow> string \<Rightarrow> nat option" where
  "digits_value after_digit acc [] = (if after_digit then Some acc else None)"
| "digits_value after_digit acc (c # cs) =
     (if is_digit c then digits_value True (acc * 10 + (of_char c - 48)) cs
      else if c = CHR ''_'' \<and> after_digit then digits_value False acc cs
      else None)"

definition py_int :: "string \<Rightarrow> py_error + int" where
  "py_int s =
     (case strip s of
        [] \<Rightarrow> Inl ValueError
      | c # r \<Rightarrow>
          (let ds = (if c = CHR ''-'' \<or> c = CHR ''+'' then r else c # r)
           in if 4300 < length (filter is_digit ds) then Inl ValueError
              else case digits_value False 0 ds of
                     None \<Rightarrow> Inl ValueError
                   | Some n \<Rightarrow> Inr (if c = CHR ''-'' then - int n else int n)))"

section \<open>apps/products, apps/users: the rows the engine reads\<close>

record product =
  p_id :: nat
  p_store :: nat
  p_title :: string
  p_category :: string
  p_price :: "real option"

record user =
  u_id :: nat
  u_store :: nat
  u_user_id :: string
  u_total_interactions :: int
  u_total_purchases :: int
  u_total_value :: real
  u_avg_order_value :: real

section \<open>apps/interactions/models.py\<close>

record user_interaction_session =
  s_id :: nat
  s_store :: nat
  s_user :: "nat option"
  s_total_interactions :: int
  s_products_viewed :: int
  s_unique_products_viewed :: int
  s_added_to_cart :: bool
  s_purchased :: bool
  s_total_value :: real

record interaction =
  i_id :: "nat option"
  i_store :: nat
  i_user :: "nat option"
  i_product :: "nat option"
  i_session :: "nat option"
  interaction_type :: string
  i_value :: real
  i_weight :: real
  i_product_price :: "real option"
  i_product_category :: string
  i_created_at :: int

text \<open>The tables \<open>Interaction.save\<close> reads and writes.\<close>

record interaction_db =
  products :: "product list"
  users :: "user list"
  sessions :: "user_interaction_session list"
  interactions :: "interaction list"

text \<open>
  \<open>Model.objects.get(id=k)\<close>: the row with that primary key, \<open>DoesNotExist\<close> when there
  is none. A primary key names at most one row.
\<close>

definition get_by :: "('a \<Rightarrow> bool) \<Rightarrow> 'a list \<Rightarrow> py_error + 'a" where
  "get_by P rows =
     (case filter P rows of
        [] \<Rightarrow> Inl DoesNotExist
      | [r] \<Rightarrow> Inr r
      | _ \<Rightarrow> Inl MultipleObjectsReturned)"

text \<open>\<open>row.save()\<close> of a row that has its primary key: the stored row is replaced.\<close>

definition update_row :: "('a \<Rightarrow> bool) \<Rightarrow> 'a \<Rightarrow> 'a list \<Rightarrow> 'a list" where
  "update_row P r rows = map (\<lambda>x. if P x then r else x) rows"

text \<open>The literal \<open>weight_map\<close> of \<open>Interaction.save\<close>, lines 185 to 195.\<close>

definition weight_map :: "(string \<times> real) list" where
  "weight_map =
     [(''view'', 1 / 10),
      (''click'', 3 / 10),
      (''detail_view'', 1 / 2),
      (''cart_add'', 2),
      (''wishlist_add'', 3 / 2),
      (''purchase'', 5),
      (''review'', 3),
      (''like'', 1),
      (''dislike'', 1 / 2)]"

text \<open>
  \<open>UserInteractionSession.update_session_metrics\<close>, lines 79 to 101, on the
  interactions of the session. \<open>values('product').distinct()\<close> counts the null product
  as one value; the cart flag looks for the type \<open>cart\<close>, as the source does.
\<close>

definition update_session_metrics ::
  "interaction list \<Rightarrow> user_interaction_session \<Rightarrow> user_interaction_session" where
  "update_session_metrics tbl s =
     (let own = filter (\<lambda>i. i_session i = Some (s_id s)) tbl;
          views = filter (\<lambda>i. interaction_type i = ''view'') own
      in s\<lparr> s_total_interactions := int (length own),
            s_unique_products_viewed := int (length (remdups (map i_product views))),
            s_products_viewed := int (length views),
            s_added_to_cart := (\<exists>i \<in> set own. interaction_type i = ''cart''),
            s_purchased := (\<exists>i \<in> set own. interaction_type i = ''purchase''),
            s_total_value :=
              sum_list (map i_value (filter (\<lambda>i. interaction_type i = ''purchase'') own)) \<rparr>)"

text \<open>\<open>User.update_engagement_metrics\<close>, apps/users/models.py lines 88 to 108.\<close>

definition update_engagement_metrics :: "interaction list \<Rightarrow> user \<Rightarrow> user" where
  "update_engagement_metrics tbl u =
     (let own = filter (\<lambda>i. i_user i = Some (u_id u)) tbl;
          purchases = filter (\<lambda>i. interaction_type i = ''purchase'') own;
          u1 = u\<lparr> u_total_interactions := int (length own),
                  u_total_purchases := int (length purchases) \<rparr>
      in if 0 < u_total_purchases u1
         then u1\<lparr> u_total_value := sum_list (map i_value purchases),
                  u_avg_order_value :=
                    sum_list (map i_value purchases) / real (length purchases) \<rparr>
         else u1)"

text \<open>
  The part of \<open>Interaction.save\<close> before \<open>super().save()\<close>, lines 179 to 196: the
  product context is filled in once, the weight is set from the type every time.
  Reading \<open>self.product\<close> fetches the product row.
\<close>

definition pre_save :: "product list \<Rightarrow> interaction \<Rightarrow> py_error + interaction" where
  "pre_save prods i =
     (let filled =
        (case i_product i of
           None \<Rightarrow> Inr i
         | Some pid \<Rightarrow>
             (case get_by (\<lambda>p. p_id p = pid) prods of
                Inl e \<Rightarrow> Inl e
              | Inr p \<Rightarrow>
                  if i_product_category i = []
                  then Inr (i\<lparr> i_product_category := p_category p,
                              i_product_price := p_price p \<rparr>)
                  else Inr i))
      in case filled of
           Inl e \<Rightarrow> Inl e
         | Inr i1 \<Rightarrow> Inr (i1\<lparr> i_weight := dict_get weight_map (interaction_type i1) 1 \<rparr>))"

text \<open>
  \<open>super().save()\<close>: a row without a primary key is inserted under a fresh key, with
  \<open>created_at\<close> set to the current time (\<open>auto_now_add\<close>); a row with one replaces the
  stored row, or is inserted when no row has that key.
\<close>

definition fresh_id :: "nat option list \<Rightarrow> nat" where
  "fresh_id ks = Suc (fold (\<lambda>k m. case k of None \<Rightarrow> m | Some n \<Rightarrow> max n m) ks 0)"

definition model_save :: "int \<Rightarrow> interaction \<Rightarrow> interaction list \<Rightarrow> interaction \<times> interaction list" where
  "model_save now i tbl =
     (case i_id i of
        None \<Rightarrow>
          (let i1 = i\<lparr> i_id := Some (fresh_id (map i_id tbl)), i_created_at := now \<rparr>
           in (i1, tbl @ [i1]))
      | Some k \<Rightarrow>
          if \<exists>r \<in> set tbl. i_id r = Some k
          then (i, update_row (\<lambda>r. i_id r = Some k) i tbl)
          else (i, tbl @ [i]))"

text \<open>
  The two calls that end \<open>Interaction.save\<close>, lines 200 to 206: the session and the
  user of the interaction recompute their counters from the interactions table and save
  themselves. Following the foreign key fetches the row.
\<close>

definition save_session_metrics ::
  "interaction \<Rightarrow> interaction_db \<Rightarrow> py_error option \<times> interaction_db" where
  "save_session_metrics i db =
     (case i_session i of
        None \<Rightarrow> (None, db)
      | Some sid \<Rightarrow>
          (case get_by (\<lambda>s. s_id s = sid) (sessions db) of
             Inl e \<Rightarrow> (Some e, db)
           | Inr s \<Rightarrow>
               (None, db\<lparr> sessions :=
                  update_row (\<lambda>x. s_id x = sid)
                    (update_session_metrics (interactions db) s) (sessions db) \<rparr>)))"

definition save_user_metrics ::
  "interaction \<Rightarrow> interaction_db \<Rightarrow> py_error option \<times> interaction_db" where
  "save_user_metrics i db =
     (case i_user i of
        None \<Rightarrow> (None, db)
      | Some uid \<Rightarrow>
          (case get_by (\<lambda>u. u_id u = uid) (users db) of
             Inl e \<Rightarrow> (Some e, db)
           | Inr u \<Rightarrow>
               (None, db\<lparr> users :=
                  update_row (\<lambda>x. u_id x = uid)
                    (update_engagement_metrics (interactions db) u) (users db) \<rparr>)))"

text \<open>
  \<open>Interaction.save\<close>, lines 177 to 206. The result is the exception that ended the
  call, if one did, the instance, and the database as the call left it.
\<close>

definition interaction_save ::
  "int \<Rightarrow> interaction_db \<Rightarrow> interaction \<Rightarrow> py_error option \<times> interaction \<times> interaction_db" where
  "interaction_save now db i =
     (case pre_save (products db) i of
        Inl e \<Rightarrow> (Some e, i, db)
      | Inr i1 \<Rightarrow>
          (let (i2, tbl) = model_save now i1 (interactions db);
               db1 = db\<lparr> interactions := tbl \<rparr>
           in case save_session_metrics i2 db1 of
                (Some e, db2) \<Rightarrow> (Some e, i2, db2)
              | (None, db2) \<Rightarrow>
                  (case save_user_metrics i2 db2 of (err, db3) \<Rightarrow> (err, i2, db3))))"

section \<open>apps/recommendations/models.py\<close>

record recommendation =
  r_id :: nat
  r_store :: nat
  r_user :: "nat option"
  r_session_id :: string
  r_product :: nat
  r_algorithm :: string
  r_score :: real
  r_rank :: int
  r_context :: "(string \<times> string) list"
  r_explanation :: string
  shown_count :: int
  click_count :: int
  purchase_count :: int
  r_created_at :: int
  r_expires_at :: "int option"

record user_recommendation_profile =
  rp_id :: nat
  rp_store :: nat
  rp_user :: nat
  total_recommendations_shown :: int
  total_recommendations_clicked :: int
  total_recommendations_purchased :: int
  overall_ctr :: real
  overall_conversion_rate :: real
  last_recommendation_at :: "int option"

record recommendation_db =
  rec_users :: "user list"
  recommendations :: "recommendation list"
  recommendation_profiles :: "user_recommendation_profile list"

text \<open>Python's \<open>a / b\<close> on integers: the quotient as a float, an exception when \<open>b\<close> is 0.\<close>

definition truediv :: "int \<Rightarrow> int \<Rightarrow> py_error + real" where
  "truediv a b =
     (if b = 0 then Inl ZeroDivisionError else Inr (real_of_int a / real_of_int b))"

text \<open>The properties \<open>click_through_rate\<close> and \<open>conversion_rate\<close>, lines 63 to 75.\<close>

definition click_through_rate :: "recommendation \<Rightarrow> py_error + real" where
  "click_through_rate r =
     (if shown_count r = 0 then Inr 0
      else (case truediv (click_count r) (shown_count r) of
              Inl e \<Rightarrow> Inl e
            | Inr q \<Rightarrow> Inr (q * 100)))"

definition conversion_rate :: "recommendation \<Rightarrow> py_error + real" where
  "conversion_rate r =
     (if shown_count r = 0 then Inr 0
      else (case truediv (purchase_count r) (shown_count r) of
              Inl e \<Rightarrow> Inl e
            | Inr q \<Rightarrow> Inr (q * 100)))"

text \<open>
  \<open>increment_shown\<close> and \<open>increment_click\<close>, lines 77 to 85: the instance in memory is
  incremented and \<open>save(update_fields=[...])\<close> writes that one column of its row.
\<close>

definition increment_shown :: "recommendation \<Rightarrow> recommendation list \<Rightarrow> recommendation list" where
  "increment_shown r tbl =
     map (\<lambda>x. if r_id x = r_id r then x\<lparr> shown_count := shown_count r + 1 \<rparr> else x) tbl"

definition increment_click :: "recommendation \<Rightarrow> recommendation list \<Rightarrow> recommendation list" where
  "increment_click r tbl =
     map (\<lambda>x. if r_id x = r_id r then x\<lparr> click_count := click_count r + 1 \<rparr> else x) tbl"

text \<open>
  \<open>UserRecommendationProfile.update_performance_metrics\<close>, lines 263 to 268: the
  profile is saved only when something was shown.
\<close>

definition update_performance_metrics ::
  "user_recommendation_profile \<Rightarrow> user_recommendation_profile list \<Rightarrow>
   user_recommendation_profile list" where
  "update_performance_metrics p tbl =
     (if 0 < total_recommendations_shown p
      then update_row (\<lambda>x. rp_id x = rp_id p)
             (p\<lparr> overall_ctr :=
                   (real_of_int (total_recommendations_clicked p) /
                    real_of_int (total_recommendations_shown p)) * 100,
                 overall_conversion_rate :=
                   (real_of_int (total_recommendations_purchased p) /
                    real_of_int (total_recommendations_shown p)) * 100 \<rparr>) tbl
      else tbl)"

section \<open>apps/recommendations/services.py: the feedback loop\<close>

text \<open>
  \<open>RecommendationService._update_user_profile\<close>, lines 399 to 421. \<open>get_or_create\<close>
  inserts a profile with the column defaults when the user has none.
\<close>

definition update_user_profile ::
  "int \<Rightarrow> user \<Rightarrow> recommendation_db \<Rightarrow> py_error option \<times> recommendation_db" where
  "update_user_profile now u db =
     (let mine = (\<lambda>p. rp_store p = u_store u \<and> rp_user p = u_id u) in
      case (case get_by mine (recommendation_profiles db) of
              Inl DoesNotExist \<Rightarrow>
                (let p = \<lparr> rp_id = Suc (fold max (map rp_id (recommendation_profiles db)) 0),
                           rp_store = u_store u, rp_user = u_id u,
                           total_recommendations_shown = 0,
                           total_recommendations_clicked = 0,
                           total_recommendations_purchased = 0,
                           overall_ctr = 0, overall_conversion_rate = 0,
                           last_recommendation_at = None \<rparr>
                 in Inr (p, recommendation_profiles db @ [p]))
            | Inl e \<Rightarrow> Inl e
            | Inr p \<Rightarrow> Inr (p, recommendation_profiles db)) of
        Inl e \<Rightarrow> (Some e, db)
      | Inr (profile, tbl) \<Rightarrow>
          (let own = filter (\<lambda>r. r_user r = Some (u_id u)) (recommendations db);
               p1 = profile\<lparr> total_recommendations_shown := sum_list (map shown_count own),
                             total_recommendations_clicked := sum_list (map click_count own),
                             total_recommendations_purchased := sum_list (map purchase_count own),
                             last_recommendation_at := Some now \<rparr>
           in (None, db\<lparr> recommendation_profiles := update_performance_metrics p1 tbl \<rparr>)))"

text \<open>
  \<open>record_impression\<close> and \<open>record_click\<close>, lines 373 to 397. Only
  \<open>Recommendation.DoesNotExist\<close> is caught.
\<close>

definition record_feedback ::
  "(recommendation \<Rightarrow> recommendation list \<Rightarrow> recommendation list) \<Rightarrow>
   int \<Rightarrow> recommendation_db \<Rightarrow> nat \<Rightarrow> py_error option \<times> recommendation_db" where
  "record_feedback increment now db recommendation_id =
     (case get_by (\<lambda>r. r_id r = recommendation_id) (recommendations db) of
        Inl DoesNotExist \<Rightarrow> (None, db)
      | Inl e \<Rightarrow> (Some e, db)
      | Inr r \<Rightarrow>
          (let db1 = db\<lparr> recommendations := increment r (recommendations db) \<rparr> in
           case r_user r of
             None \<Rightarrow> (None, db1)
           | Some uid \<Rightarrow>
               (case get_by (\<lambda>u. u_id u = uid) (rec_users db1) of
                  Inl e \<Rightarrow> (Some e, db1)
                | Inr u \<Rightarrow> update_user_profile now u db1)))"

definition record_impression ::
  "int \<Rightarrow> recommendation_db \<Rightarrow> nat \<Rightarrow> py_error option \<times> recommendation_db" where
  "record_impression = record_feedback increment_shown"

definition record_click ::
  "int \<Rightarrow> recommendation_db \<Rightarrow> nat \<Rightarrow> py_error option \<times> recommendation_db" where
  "record_click = record_feedback increment_click"

section \<open>apps/recommendations/services.py: storing the recommendations\<close>

text \<open>
  What an engine returns for one product: the dictionary with the keys \<open>product\<close>,
  \<open>score\<close>, \<open>rank\<close> and \<open>explanation\<close>. Every engine sets the four keys, so the
  default of \<open>rec.get('explanation', '')\<close> is never taken.
\<close>

record candidate =
  c_product :: product
  c_score :: real
  c_rank :: int
  c_explanation :: string

text \<open>
  The key of the lookup of \<open>get_or_create\<close>, lines 325 to 330: store, user, session
  (\<open>session_id or ''\<close>), product and algorithm (\<open>algorithm or 'hybrid'\<close>).
\<close>

record rec_key =
  k_store :: nat
  k_user :: "nat option"
  k_session_id :: string
  k_product :: nat
  k_algorithm :: string

definition key_of :: "recommendation \<Rightarrow> rec_key" where
  "key_of r = \<lparr> k_store = r_store r, k_user = r_user r, k_session_id = r_session_id r,
               k_product = r_product r, k_algorithm = r_algorithm r \<rparr>"

definition request_key ::
  "nat \<Rightarrow> nat option \<Rightarrow> string option \<Rightarrow> string option \<Rightarrow> candidate \<Rightarrow> rec_key" where
  "request_key store user_pk session_id algorithm rec =
     \<lparr> k_store = store, k_user = user_pk,
       k_session_id = (case session_id of None \<Rightarrow> [] | Some s \<Rightarrow> s),
       k_product = p_id (c_product rec),
       k_algorithm = (case algorithm of None \<Rightarrow> ''hybrid''
                      | Some a \<Rightarrow> if a = [] then ''hybrid'' else a) \<rparr>"

text \<open>
  The row \<open>get_or_create\<close> inserts for a key that is not stored, lines 325 to 338: the
  key, the \<open>defaults\<close>, the counters at their column default 0 and \<open>created_at\<close> at the
  current time (\<open>auto_now_add\<close>).
\<close>

definition created_row ::
  "int \<Rightarrow> rec_key \<Rightarrow> (string \<times> string) list option \<Rightarrow> candidate \<Rightarrow>
   recommendation list \<Rightarrow> recommendation" where
  "created_row now k context rec tbl =
     \<lparr> r_id = Suc (fold max (map r_id tbl) 0),
       r_store = k_store k, r_user = k_user k,
       r_session_id = k_session_id k, r_product = k_product k,
       r_algorithm = k_algorithm k,
       r_score = c_score rec, r_rank = c_rank rec,
       r_context = (case context of None \<Rightarrow> [] | Some c \<Rightarrow> c),
       r_explanation = c_explanation rec,
       shown_count = 0, click_count = 0, purchase_count = 0,
       r_created_at = now, r_expires_at = Some (now + 24 * 3600) \<rparr>"

text \<open>The assignments to a row that was already stored, lines 340 to 346.\<close>

definition updated_row ::
  "int \<Rightarrow> (string \<times> string) list option \<Rightarrow> candidate \<Rightarrow> recommendation \<Rightarrow> recommendation" where
  "updated_row now context rec stored_rec =
     stored_rec\<lparr> r_score := c_score rec, r_rank := c_rank rec,
                  r_explanation := c_explanation rec,
                  r_context := (case context of None \<Rightarrow> [] | Some c \<Rightarrow> c),
                  r_expires_at := Some (now + 24 * 3600) \<rparr>"

text \<open>
  The service hands its \<open>user_id\<close> argument, the identifier the store gives its user
  (the engines look it up in \<open>User.user_id\<close>, line 68), to the column \<open>user_id\<close> of
  the recommendation, which holds the primary key of a user row (line 327). The column
  converts the value with \<open>int\<close>; \<open>None\<close> stays \<open>None\<close>. A negative number is the key of
  no row: the lookup finds nothing and the insert violates the foreign key.
\<close>

definition user_column :: "string option \<Rightarrow> py_error + nat option" where
  "user_column user_id =
     (case user_id of
        None \<Rightarrow> Inr None
      | Some s \<Rightarrow>
          (case py_int s of
             Inl e \<Rightarrow> Inl e
           | Inr n \<Rightarrow> if n < 0 then Inl IntegrityError else Inr (Some (nat n))))"

text \<open>The foreign key of a new row: no user, or the primary key of a user row.\<close>

definition user_exists :: "user list \<Rightarrow> nat option \<Rightarrow> bool" where
  "user_exists user_rows user_pk \<longleftrightarrow>
     (case user_pk of None \<Rightarrow> True | Some n \<Rightarrow> n \<in> set (map u_id user_rows))"

text \<open>
  One turn of the loop of \<open>RecommendationService.get_recommendations\<close>, lines 325 to
  349: \<open>get_or_create\<close> on the key, then the update and \<open>save()\<close> of a row that was
  already there. The lookup raises \<open>ValueError\<close> for a user id that is not a number;
  the insert raises \<open>IntegrityError\<close> for a number that is the primary key of no user.
  The result is the stored row and the table.
\<close>

definition upsert_recommendation ::
  "int \<Rightarrow> user list \<Rightarrow> nat \<Rightarrow> string option \<Rightarrow> string option \<Rightarrow> string option \<Rightarrow>
   (string \<times> string) list option \<Rightarrow> candidate \<Rightarrow> recommendation list \<Rightarrow>
   py_error + (recommendation \<times> recommendation list)" where
  "upsert_recommendation now user_rows store user_id session_id algorithm context rec tbl =
     (case user_column user_id of
        Inl e \<Rightarrow> Inl e
      | Inr user_pk \<Rightarrow>
          (let k = request_key store user_pk session_id algorithm rec
           in case get_by (\<lambda>r. key_of r = k) tbl of
                Inl DoesNotExist \<Rightarrow>
                  if user_exists user_rows user_pk
                  then (let r = created_row now k context rec tbl in Inr (r, tbl @ [r]))
                  else Inl IntegrityError
              | Inl e \<Rightarrow> Inl e
              | Inr stored_rec \<Rightarrow>
                  (let r = updated_row now context rec stored_rec
                   in Inr (r, update_row (\<lambda>x. r_id x = r_id r) r tbl))))"

text \<open>
  The loop itself, lines 322 to 351: the rows stored so far, the table, and the
  exception that ended the loop, if one did.
\<close>

fun store_recommendations ::
  "int \<Rightarrow> user list \<Rightarrow> nat \<Rightarrow> string option \<Rightarrow> string option \<Rightarrow> string option \<Rightarrow>
   (string \<times> string) list option \<Rightarrow> candidate list \<Rightarrow> recommendation list \<Rightarrow>
   py_error option \<times> recommendation list \<times> recommendation list" where
  "store_recommendations now user_rows store user_id session_id algorithm context [] tbl =
     (None, [], tbl)"
| "store_recommendations now user_rows store user_id session_id algorithm context (rec # recs) tbl =
     (case upsert_recommendation now user_rows store user_id session_id algorithm context rec tbl of
        Inl e \<Rightarrow> (Some e, [], tbl)
      | Inr (r, tbl1) \<Rightarrow>
          (case store_recommendations now user_rows store user_id session_id algorithm context
                  recs tbl1 of
             (err, stored, tbl2) \<Rightarrow> (err, r # stored, tbl2)))"

section \<open>apps/recommendations/services.py: the engines\<close>

text \<open>
  \<open>values(key).annotate(...)\<close>: the rows grouped by a column, each group in the place
  of its first row. \<open>order_by('-key')\<close>: descending, rows of equal key in the order
  they had; the database promises no order among them, and every order of the ties is
  the order of some table.
\<close>

fun group_rows :: "('a \<Rightarrow> 'k) \<Rightarrow> 'a list \<Rightarrow> ('k \<times> 'a list) list" where
  "group_rows key [] = []"
| "group_rows key (x # xs) =
     (key x, x # filter (\<lambda>y. key y = key x) xs) #
       group_rows key (filter (\<lambda>y. key y \<noteq> key x) xs)"

definition order_by_desc :: "('a \<Rightarrow> 'k::{linorder, uminus}) \<Rightarrow> 'a list \<Rightarrow> 'a list" where
  "order_by_desc key rows = sort_key (\<lambda>r. - key r) rows"

definition is_purchase :: "interaction \<Rightarrow> bool" where
  "is_purchase i \<longleftrightarrow> interaction_type i = ''purchase''"

text \<open>
  The loop that ends \<open>CollaborativeFilteringEngine.get_recommendations\<close>, lines 94 to
  107, over the rows with their positions: a group whose product row is missing is
  skipped and its rank is not given to another.
\<close>

fun collaborative_candidates ::
  "product list \<Rightarrow> (nat \<times> nat option \<times> int) list \<Rightarrow> py_error + candidate list" where
  "collaborative_candidates prods [] = Inr []"
| "collaborative_candidates prods ((idx, item_product, item_score) # items) =
     (case (case item_product of
              None \<Rightarrow> Inl DoesNotExist
            | Some pid \<Rightarrow> get_by (\<lambda>p. p_id p = pid) prods) of
        Inl DoesNotExist \<Rightarrow> collaborative_candidates prods items
      | Inl e \<Rightarrow> Inl e
      | Inr p \<Rightarrow>
          (case collaborative_candidates prods items of
             Inl e \<Rightarrow> Inl e
           | Inr recs \<Rightarrow>
               Inr (\<lparr> c_product = p,
                      c_score = min (real_of_int item_score / 10) 1,
                      c_rank = int idx + 1,
                      c_explanation = ''Users with similar interests also liked this'' \<rparr>
                    # recs)))"

text \<open>
  \<open>CollaborativeFilteringEngine.get_recommendations\<close>, lines 63 to 107. \<open>not user_id\<close>
  holds of \<open>None\<close> and of the empty string. The lookup \<open>__in\<close> drops the null product
  from the products of the user; \<open>exclude\<close> keeps the interactions without product.
\<close>

definition collaborative_get_recommendations ::
  "interaction_db \<Rightarrow> nat \<Rightarrow> string option \<Rightarrow> nat \<Rightarrow> py_error + candidate list" where
  "collaborative_get_recommendations db store user_id max_results =
     (case user_id of
        None \<Rightarrow> Inr []
      | Some uid \<Rightarrow>
          if uid = [] then Inr []
          else
            (case get_by (\<lambda>u. u_store u = store \<and> u_user_id u = uid) (users db) of
               Inl DoesNotExist \<Rightarrow> Inr []
             | Inl e \<Rightarrow> Inl e
             | Inr user \<Rightarrow>
                 (let user_interactions =
                        remdups (map i_product
                          (filter (\<lambda>i. i_user i = Some (u_id user)) (interactions db)))
                  in if user_interactions = [] then Inr []
                     else
                       (let similarity = (\<lambda>v. int (length
                              (filter (\<lambda>i. i_user i = Some (u_id v) \<and> i_product i \<noteq> None \<and>
                                            i_product i \<in> set user_interactions)
                                 (interactions db))));
                            similar_users =
                              take 10 (order_by_desc similarity
                                (filter (\<lambda>v. u_store v = store \<and> 0 < similarity v \<and>
                                              u_id v \<noteq> u_id user) (users db)));
                            rows = filter
                              (\<lambda>i. i_store i = store \<and>
                                   (\<exists>v \<in> set similar_users. i_user i = Some (u_id v)) \<and>
                                   \<not> (i_product i \<noteq> None \<and> i_product i \<in> set user_interactions))
                              (interactions db);
                            similar_user_products =
                              take max_results (order_by_desc snd
                                (map (\<lambda>(p, g). (p, int (length g) +
                                                    int (length (filter is_purchase g)) * 3))
                                   (group_rows i_product rows)))
                        in collaborative_candidates (products db)
                             (zip [0..<length similar_user_products] similar_user_products)))))"

text \<open>
  \<open>HybridRecommendationEngine.get_recommendations\<close>, lines 213 to 277. The dictionary
  \<open>all_recommendations\<close> maps a product id to the product, the scores by engine name and
  the explanations; both dictionaries keep the order of insertion.
\<close>

record hybrid_entry =
  h_product :: product
  h_scores :: "(string \<times> real) list"
  h_explanations :: "string list"

text \<open>The body of the inner loop, lines 227 to 236.\<close>

definition add_recommendation ::
  "string \<Rightarrow> candidate \<Rightarrow> (nat \<times> hybrid_entry) list \<Rightarrow> (nat \<times> hybrid_entry) list" where
  "add_recommendation engine_name rec all_recommendations =
     (let product_id = p_id (c_product rec);
          all1 = (if product_id \<in> fst ` set all_recommendations then all_recommendations
                  else all_recommendations @
                         [(product_id, \<lparr> h_product = c_product rec, h_scores = [],
                                         h_explanations = [] \<rparr>)])
      in map (\<lambda>(k, e). if k = product_id
                         then (k, e\<lparr> h_scores := dict_set (h_scores e) engine_name (c_score rec),
                                     h_explanations := h_explanations e @ [c_explanation rec] \<rparr>)
                         else (k, e)) all1)"

text \<open>
  The outer loop, lines 217 to 240: every engine is asked for twice as many results;
  an engine that raises is reported and passed over.
\<close>

definition collect_recommendations ::
  "(string \<times> (nat \<Rightarrow> py_error + candidate list)) list \<Rightarrow> nat \<Rightarrow> (nat \<times> hybrid_entry) list" where
  "collect_recommendations engines max_results =
     fold (\<lambda>(engine_name, engine) all_recommendations.
             case engine (max_results * 2) of
               Inl e \<Rightarrow> all_recommendations
             | Inr engine_recommendations \<Rightarrow>
                 fold (add_recommendation engine_name) engine_recommendations all_recommendations)
       engines []"

text \<open>The weights and the weighted average of one product, lines 246 to 261.\<close>

definition weights :: "(string \<times> real) list" where
  "weights = [(''collaborative'', 4 / 10), (''content'', 35 / 100), (''popularity'', 25 / 100)]"

definition combined_score :: "(string \<times> real) list \<Rightarrow> real" where
  "combined_score scores =
     (let (combined, total_weight) =
            fold (\<lambda>(engine_name, score) (combined, total_weight).
                    (combined + score * dict_get weights engine_name (1 / 10),
                     total_weight + dict_get weights engine_name (1 / 10)))
              scores (0, 0)
      in if 0 < total_weight then combined / total_weight else combined)"

text \<open>\<open>str.lower\<close> on the ASCII letters, and \<open>_combine_explanations\<close>, lines 279 to 289.\<close>

definition lower :: "string \<Rightarrow> string" where
  "lower s = map (\<lambda>c. if (65::nat) \<le> of_char c \<and> of_char c \<le> (90::nat)
                         then char_of (of_char c + (32::nat)) else c) s"

definition combine_explanations :: "string list \<Rightarrow> string" where
  "combine_explanations explanations =
     (case rev (remdups (rev explanations)) of
        [] \<Rightarrow> ''Recommended for you''
      | [e] \<Rightarrow> e
      | e1 # e2 # _ \<Rightarrow> e1 @ '' and '' @ lower e2)"

definition hybrid_get_recommendations ::
  "(string \<times> (nat \<Rightarrow> py_error + candidate list)) list \<Rightarrow> nat \<Rightarrow> candidate list" where
  "hybrid_get_recommendations engines max_results =
     (let final_recommendations =
            order_by_desc (\<lambda>(score, e). score)
              (map (\<lambda>(product_id, e). (combined_score (h_scores e), e))
                 (collect_recommendations engines max_results));
          top = take max_results final_recommendations
      in map (\<lambda>(idx, score, e).
                \<lparr> c_product = h_product e, c_score = score, c_rank = int idx + 1,
                  c_explanation = combine_explanations (h_explanations e) \<rparr>)
           (zip [0..<length top] top))"

text \<open>The three engines of \<open>HybridRecommendationEngine.__init__\<close>, in their order.\<close>

definition hybrid_engines ::
  "(nat \<Rightarrow> py_error + candidate list) \<Rightarrow> (nat \<Rightarrow> py_error + candidate list) \<Rightarrow>
   (nat \<Rightarrow> py_error + candidate list) \<Rightarrow> (string \<times> (nat \<Rightarrow> py_error + candidate list)) list" where
  "hybrid_engines popularity collaborative content =
     [(''popularity'', popularity), (''collaborative'', collaborative), (''content'', content)]"

text \<open>
  The specification's words for the combiner, to compare the code with. An engine
  contributes to a product when it returned without raising and its list holds the
  product; its score for the product is the one of the last such entry. The weight of
  an engine is 0.40, 0.35 or 0.25 by its name and 0.1 for any other name. The weighted
  average divides the weighted sum of the contributed scores by the sum of their weights.
\<close>

definition engine_score :: "candidate list \<Rightarrow> nat \<Rightarrow> real option" where
  "engine_score recs pid =
     (case filter (\<lambda>c. p_id (c_product c) = pid) recs of
        [] \<Rightarrow> None
      | c # cs \<Rightarrow> Some (c_score (last (c # cs))))"

definition contributions ::
  "(string \<times> (nat \<Rightarrow> py_error + candidate list)) list \<Rightarrow> nat \<Rightarrow> nat \<Rightarrow> (string \<times> real) list" where
  "contributions engines max_results pid =
     concat (map (\<lambda>(engine_name, engine).
                    case engine (max_results * 2) of
                      Inl e \<Rightarrow> []
                    | Inr recs \<Rightarrow>
                        (case engine_score recs pid of
                           None \<Rightarrow> []
                         | Some s \<Rightarrow> [(engine_name, s)]))
               engines)"

definition weight_of :: "string \<Rightarrow> real" where
  "weight_of engine_name =
     (if engine_name = ''collaborative'' then 40 / 100
      else if engine_name = ''content'' then 35 / 100
      else if engine_name = ''popularity'' then 25 / 100
      else 10 / 100)"

definition weighted_average :: "(string \<times> real) list \<Rightarrow> real" where
  "weighted_average cs =
     (\<Sum>(engine_name, s) \<leftarrow> cs. weight_of engine_name * s) /
     (\<Sum>(engine_name, s) \<leftarrow> cs. weight_of engine_name)"

text \<open>The scores \<open>all_recommendations\<close> holds for a product, none when it has no entry.\<close>

definition scores_of :: "(nat \<times> hybrid_entry) list \<Rightarrow> nat \<Rightarrow> (string \<times> real) list" where
  "scores_of all_recommendations pid =
     (case map_of all_recommendations pid of None \<Rightarrow> [] | Some e \<Rightarrow> h_scores e)"

text \<open>
  What holds of \<open>all_recommendations\<close> throughout: one entry for a product id, filed
  under the id of its product, with a score.
\<close>

definition entries_ok :: "(nat \<times> hybrid_entry) list \<Rightarrow> bool" where
  "entries_ok all_recommendations \<longleftrightarrow>
     distinct (map fst all_recommendations) \<and>
     list_all (\<lambda>(k, e). p_id (h_product e) = k \<and> h_scores e \<noteq> []) all_recommendations"

section \<open>apps/recommendations/tasks.py: trending products\<close>

record trending_product =
  t_id :: nat
  t_store :: nat
  t_product :: nat
  t_score :: real
  t_velocity :: real
  t_rank :: int
  t_calculation_window :: string
  t_calculated_at :: int

record trending_db =
  stores :: "nat list"
  catalog :: "product list"
  events :: "interaction list"
  trending_products :: "trending_product list"

text \<open>
  One row of \<open>trending_data\<close>, lines 77 to 85: a product of the store with its three
  counts over the interactions of the window that have a product.
\<close>

record trending_item =
  item_product :: nat
  item_interaction_count :: int
  item_purchase_count :: int
  item_velocity :: int

definition window_rows :: "int \<Rightarrow> int \<Rightarrow> nat \<Rightarrow> interaction list \<Rightarrow> (nat \<times> interaction) list" where
  "window_rows now time_delta store tbl =
     concat (map (\<lambda>i. case i_product i of
                          None \<Rightarrow> []
                        | Some pid \<Rightarrow>
                            if i_store i = store \<and> now - time_delta \<le> i_created_at i
                            then [(pid, i)] else []) tbl)"

text \<open>
  The query of lines 77 to 85: the groups with their counts, then the first 50 in
  descending order of \<open>interaction_count\<close>. The clock is read once for the window and
  once for its recent half; the two readings are taken as the same instant \<open>now\<close>.
\<close>

definition annotate :: "int \<Rightarrow> int \<Rightarrow> nat \<Rightarrow> interaction list \<Rightarrow> trending_item list" where
  "annotate now time_delta store tbl =
     map (\<lambda>(pid, g).
            \<lparr> item_product = pid,
              item_interaction_count = int (length g),
              item_purchase_count = int (length (filter (\<lambda>(p, i). is_purchase i) g)),
              item_velocity =
                int (length (filter (\<lambda>(p, i). now - time_delta div 2 \<le> i_created_at i) g)) \<rparr>)
       (group_rows fst (window_rows now time_delta store tbl))"

definition trending_data :: "int \<Rightarrow> int \<Rightarrow> nat \<Rightarrow> interaction list \<Rightarrow> trending_item list" where
  "trending_data now time_delta store tbl =
     take 50 (order_by_desc item_interaction_count (annotate now time_delta store tbl))"

text \<open>The score and the velocity of an item, lines 93 to 98.\<close>

definition trending_score :: "trending_item \<Rightarrow> real" where
  "trending_score item =
     real_of_int (item_interaction_count item + item_purchase_count item * 5 +
                  item_velocity item * 2)"

definition velocity :: "trending_item \<Rightarrow> real" where
  "velocity item =
     real_of_int (item_velocity item) / real_of_int (max (item_interaction_count item) 1)"

text \<open>
  \<open>TrendingProduct.objects.update_or_create\<close>, lines 101 to 110: the row of the key
  (store, product, window) gets the three values, a row that is not there is inserted.
\<close>

definition update_or_create ::
  "int \<Rightarrow> nat \<Rightarrow> nat \<Rightarrow> string \<Rightarrow> real \<Rightarrow> real \<Rightarrow> int \<Rightarrow>
   trending_product list \<Rightarrow> py_error + trending_product list" where
  "update_or_create now store product calculation_window score vel rank tbl =
     (case get_by (\<lambda>r. t_store r = store \<and> t_product r = product \<and>
                        t_calculation_window r = calculation_window) tbl of
        Inl DoesNotExist \<Rightarrow>
          Inr (tbl @ [\<lparr> t_id = Suc (fold max (map t_id tbl) 0), t_store = store,
                         t_product = product, t_score = score, t_velocity = vel,
                         t_rank = rank, t_calculation_window = calculation_window,
                         t_calculated_at = now \<rparr>])
      | Inl e \<Rightarrow> Inl e
      | Inr r \<Rightarrow>
          Inr (update_row (\<lambda>x. t_id x = t_id r)
                 (r\<lparr> t_score := score, t_velocity := vel, t_rank := rank \<rparr>) tbl))"

text \<open>
  The loop of lines 88 to 113 over the items with their positions. An item whose
  product row is missing is passed over; any other exception ends the run with the
  rows written so far.
\<close>

fun store_trending ::
  "int \<Rightarrow> nat \<Rightarrow> string \<Rightarrow> product list \<Rightarrow> (nat \<times> trending_item) list \<Rightarrow>
   trending_product list \<Rightarrow> py_error option \<times> trending_product list" where
  "store_trending now store window_name prods [] tbl = (None, tbl)"
| "store_trending now store window_name prods ((idx, item) # items) tbl =
     (case get_by (\<lambda>p. p_id p = item_product item) prods of
        Inl DoesNotExist \<Rightarrow> store_trending now store window_name prods items tbl
      | Inl e \<Rightarrow> (Some e, tbl)
      | Inr product \<Rightarrow>
          (case update_or_create now store (p_id product) window_name
                  (trending_score item) (velocity item) (int idx + 1) tbl of
             Inl e \<Rightarrow> (Some e, tbl)
           | Inr tbl1 \<Rightarrow> store_trending now store window_name prods items tbl1))"

definition windows :: "(string \<times> int) list" where
  "windows = [(''1h'', 3600), (''6h'', 6 * 3600), (''24h'', 24 * 3600), (''7d'', 7 * 24 * 3600)]"

text \<open>One turn of the loop over the windows, lines 73 to 113.\<close>

definition calculate_window ::
  "int \<Rightarrow> nat \<Rightarrow> product list \<Rightarrow> interaction list \<Rightarrow> string \<times> int \<Rightarrow>
   trending_product list \<Rightarrow> py_error option \<times> trending_product list" where
  "calculate_window now store prods tbl w trending =
     (let data = trending_data now (snd w) store tbl
      in store_trending now store (fst w) prods (zip [0..<length data] data) trending)"

fun calculate_windows ::
  "int \<Rightarrow> nat \<Rightarrow> product list \<Rightarrow> interaction list \<Rightarrow> (string \<times> int) list \<Rightarrow>
   trending_product list \<Rightarrow> py_error option \<times> trending_product list" where
  "calculate_windows now store prods tbl [] trending = (None, trending)"
| "calculate_windows now store prods tbl (w # ws) trending =
     (case calculate_window now store prods tbl w trending of
        (Some e, trending1) \<Rightarrow> (Some e, trending1)
      | (None, trending1) \<Rightarrow> calculate_windows now store prods tbl ws trending1)"

text \<open>
  \<open>calculate_trending_products\<close>, lines 58 to 118. The function returns a message;
  the model returns which of the two messages it is, or the exception that ended it.
\<close>

datatype task_result = Calculated nat | Store_not_found nat | Raised py_error

definition calculate_trending_products :: "int \<Rightarrow> trending_db \<Rightarrow> nat \<Rightarrow> task_result \<times> trending_db" where
  "calculate_trending_products now db store_id =
     (case get_by (\<lambda>s. s = store_id) (stores db) of
        Inl DoesNotExist \<Rightarrow> (Store_not_found store_id, db)
      | Inl e \<Rightarrow> (Raised e, db)
      | Inr store \<Rightarrow>
          (case calculate_windows now store (catalog db) (events db) windows
                  (trending_products db) of
             (Some e, trending) \<Rightarrow> (Raised e, db\<lparr> trending_products := trending \<rparr>)
           | (None, trending) \<Rightarrow>
               (Calculated store_id, db\<lparr> trending_products := trending \<rparr>)))"

text \<open>
  The specification's words for the three counts of a product in a window: its
  interactions in the store since the start of the window, those that are purchases,
  and those in the most recent half of the window.
\<close>

definition in_window :: "int \<Rightarrow> int \<Rightarrow> nat \<Rightarrow> nat \<Rightarrow> interaction \<Rightarrow> bool" where
  "in_window now time_delta store pid i \<longleftrightarrow>
     i_store i = store \<and> i_product i = Some pid \<and> now - time_delta \<le> i_created_at i"

definition interaction_count :: "int \<Rightarrow> int \<Rightarrow> nat \<Rightarrow> interaction list \<Rightarrow> nat \<Rightarrow> int" where
  "interaction_count now time_delta store tbl pid =
     int (length (filter (in_window now time_delta store pid) tbl))"

definition purchase_count_in :: "int \<Rightarrow> int \<Rightarrow> nat \<Rightarrow> interaction list \<Rightarrow> nat \<Rightarrow> int" where
  "purchase_count_in now time_delta store tbl pid =
     int (length (filter (\<lambda>i. in_window now time_delta store pid i \<and> is_purchase i) tbl))"

definition velocity_count :: "int \<Rightarrow> int \<Rightarrow> nat \<Rightarrow> interaction list \<Rightarrow> nat \<Rightarrow> int" where
  "velocity_count now time_delta store tbl pid =
     int (length (filter (\<lambda>i. in_window now time_delta store pid i \<and>
                              now - time_delta div 2 \<le> i_created_at i) tbl))"

text \<open>
  What a stored trending row says: its key (store, product, window), score, velocity
  and rank. The primary key and \<open>calculated_at\<close> are left out.
\<close>

definition trending_view ::
  "trending_product \<Rightarrow> (nat \<times> nat \<times> string) \<times> real \<times> real \<times> int" where
  "trending_view r =
     ((t_store r, t_product r, t_calculation_window r), t_score r, t_velocity r, t_rank r)"

text \<open>The integrity of the table: the primary key and \<open>unique_together\<close>.\<close>

definition trending_ok :: "trending_product list \<Rightarrow> bool" where
  "trending_ok tbl \<longleftrightarrow>
     distinct (map t_id tbl) \<and> distinct (map (fst \<circ> trending_view) tbl)"

text \<open>
  What the loop over the items of a window writes: for every item whose product row
  exists, the key, the score, the velocity and the position plus one.
\<close>

definition entries_written ::
  "nat \<Rightarrow> string \<Rightarrow> product list \<Rightarrow> (nat \<times> trending_item) list \<Rightarrow>
   ((nat \<times> nat \<times> string) \<times> real \<times> real \<times> int) list" where
  "entries_written store window_name prods items =
     map (\<lambda>(idx, item). ((store, item_product item, window_name),
                           trending_score item, velocity item, int idx + 1))
       (filter (\<lambda>(idx, item). item_product item \<in> p_id ` set prods) items)"

definition window_entries ::
  "int \<Rightarrow> nat \<Rightarrow> product list \<Rightarrow> interaction list \<Rightarrow> string \<times> int \<Rightarrow>
   ((nat \<times> nat \<times> string) \<times> real \<times> real \<times> int) list" where
  "window_entries now store prods tbl w =
     (let data = trending_data now (snd w) store tbl
      in entries_written store (fst w) prods (zip [0..<length data] data))"



section \<open>apps/interactions/tasks.py: the behavior profile\<close>

record user_behavior_profile =
  bp_id :: nat
  bp_store :: nat
  bp_user :: nat
  total_interactions :: int
  total_views :: int
  total_purchases :: int
  total_cart_adds :: int
  avg_session_duration :: real
  avg_time_between_sessions :: real
  last_active_date :: "int option"
  preferred_categories :: "(string \<times> real) list"
  price_preference :: "(string \<times> real) list"
  browsing_pattern :: string
  purchase_frequency :: string
  avg_order_value :: real

text \<open>A session row as the function reads it: its user, start time and duration.\<close>

record user_session =
  us_user :: nat
  us_start_time :: int
  us_duration_seconds :: int

record behavior_db =
  b_users :: "user list"
  b_products :: "product list"
  b_interactions :: "interaction list"
  b_sessions :: "user_session list"
  behavior_profiles :: "user_behavior_profile list"

text \<open>
  The attributes a \<open>User\<close> instance gets from the foreign keys that point to it: the
  \<open>related_name\<close> of each, in apps/users/models.py lines 117 and 169,
  apps/interactions/models.py lines 11, 123 and 239, and apps/recommendations/models.py
  lines 22, 232 and 304. The model has no field, property or method called \<open>sessions\<close>,
  and \<open>sessions\<close> is the \<open>related_name\<close> of the key from \<open>UserSession\<close> to \<open>Store\<close>.
\<close>

definition user_reverse_accessors :: "string list" where
  "user_reverse_accessors =
     [''login_sessions'', ''preferences'', ''interactions_sessions'', ''interactions'',
      ''behavior_profile'', ''recommendations'', ''recommendation_profile'',
      ''recommendation_feedback'']"

text \<open>
  \<open>user.sessions.all()\<close>, line 30: reading an attribute the instance does not have
  raises \<open>AttributeError\<close>. Were the accessor there, it would give the sessions of the
  user.
\<close>

definition user_sessions :: "behavior_db \<Rightarrow> user \<Rightarrow> py_error + user_session list" where
  "user_sessions db u =
     (if ''sessions'' \<in> set user_reverse_accessors
      then Inr (filter (\<lambda>s. us_user s = u_id u) (b_sessions db))
      else Inl AttributeError)"

text \<open>\<open>get_or_create(store=user.store, user=user)\<close>, lines 17 to 20.\<close>

definition get_or_create_profile ::
  "user \<Rightarrow> user_behavior_profile list \<Rightarrow>
   py_error + (user_behavior_profile \<times> user_behavior_profile list)" where
  "get_or_create_profile u tbl =
     (case get_by (\<lambda>p. bp_store p = u_store u \<and> bp_user p = u_id u) tbl of
        Inl DoesNotExist \<Rightarrow>
          (let p = \<lparr> bp_id = Suc (fold max (map bp_id tbl) 0), bp_store = u_store u,
                     bp_user = u_id u, total_interactions = 0, total_views = 0,
                     total_purchases = 0, total_cart_adds = 0, avg_session_duration = 0,
                     avg_time_between_sessions = 0, last_active_date = None,
                     preferred_categories = [], price_preference = [],
                     browsing_pattern = [], purchase_frequency = [], avg_order_value = 0 \<rparr>
           in Inr (p, tbl @ [p]))
      | Inl e \<Rightarrow> Inl e
      | Inr p \<Rightarrow> Inr (p, tbl))"

text \<open>Lines 22 to 27: the four counts over the interactions of the user.\<close>

definition count_type :: "string \<Rightarrow> interaction list \<Rightarrow> int" where
  "count_type ty rows = int (length (filter (\<lambda>i. interaction_type i = ty) rows))"

definition interaction_frequencies ::
  "interaction list \<Rightarrow> user_behavior_profile \<Rightarrow> user_behavior_profile" where
  "interaction_frequencies rows profile =
     profile\<lparr> total_interactions := int (length rows),
              total_views := count_type ''view'' rows,
              total_purchases := count_type ''purchase'' rows,
              total_cart_adds := count_type ''cart_add'' rows \<rparr>"

text \<open>
  Lines 31 to 42: the average duration, and the whole days between the first and the
  last session start divided by the number of gaps.
\<close>

fun minimum :: "int list \<Rightarrow> int option" where
  "minimum [] = None"
| "minimum (x # xs) = (case minimum xs of None \<Rightarrow> Some x | Some m \<Rightarrow> Some (min x m))"

fun maximum :: "int list \<Rightarrow> int option" where
  "maximum [] = None"
| "maximum (x # xs) = (case maximum xs of None \<Rightarrow> Some x | Some m \<Rightarrow> Some (max x m))"

definition session_metrics ::
  "user_session list \<Rightarrow> user_behavior_profile \<Rightarrow> user_behavior_profile" where
  "session_metrics ss profile =
     (if ss = [] then profile
      else
        (let p1 = profile\<lparr> avg_session_duration :=
                    real_of_int (sum_list (map us_duration_seconds ss)) / real (length ss) \<rparr>
         in case (minimum (map us_start_time ss), maximum (map us_start_time ss)) of
              (Some first_start, Some last_start) \<Rightarrow>
                if 1 < length ss
                then p1\<lparr> avg_time_between_sessions :=
                           real_of_int ((last_start - first_start) div 86400) /
                           real (length ss - 1) \<rparr>
                else p1
            | _ \<Rightarrow> p1))"

text \<open>Lines 45 to 47: the time of the latest interaction.\<close>

definition last_active ::
  "interaction list \<Rightarrow> user_behavior_profile \<Rightarrow> user_behavior_profile" where
  "last_active rows profile =
     (case maximum (map i_created_at rows) of
        None \<Rightarrow> profile
      | Some t \<Rightarrow> profile\<lparr> last_active_date := Some t \<rparr>)"

text \<open>
  Lines 50 to 61. The interactions with a product are joined to their product rows and
  grouped by its category, each group with \<open>Sum('weight')\<close>; the groups are ordered by
  \<open>'-total_weight'\<close> alone, and the first ten fill the dictionary. Two things here are
  the database's and not the program's: the sum of a float column, which is rounded,
  and the order in which groups of equal sum are returned. They are the two fields of
  \<open>database\<close>, and nothing is fixed about them.
\<close>

record database =
  sum_float :: "real list \<Rightarrow> real"
  order_by_total_weight_desc :: "(string \<times> real) list \<Rightarrow> (string \<times> real) list"

definition category_row :: "product list \<Rightarrow> interaction \<Rightarrow> (string \<times> interaction) list" where
  "category_row prods i =
     (case i_product i of
        None \<Rightarrow> []
      | Some pid \<Rightarrow> map (\<lambda>p. (p_category p, i)) (filter (\<lambda>p. p_id p = pid) prods))"

definition category_rows :: "product list \<Rightarrow> interaction list \<Rightarrow> (string \<times> interaction) list" where
  "category_rows prods rows = concat (map (category_row prods) rows)"

definition category_interactions ::
  "database \<Rightarrow> product list \<Rightarrow> interaction list \<Rightarrow> (string \<times> real) list" where
  "category_interactions dbms prods rows =
     order_by_total_weight_desc dbms
       (map (\<lambda>(category, g). (category, sum_float dbms (map (i_weight \<circ> snd) g)))
          (group_rows fst (category_rows prods rows)))"

definition preferred_categories_of ::
  "database \<Rightarrow> product list \<Rightarrow> interaction list \<Rightarrow> (string \<times> real) list" where
  "preferred_categories_of dbms prods rows =
     fold (\<lambda>(category, total_weight) d. dict_set d category total_weight)
       (take 10 (category_interactions dbms prods rows)) []"

text \<open>Lines 64 to 75: minimum, maximum and average of the positive purchase values.\<close>

fun min_list_real :: "real list \<Rightarrow> real option" where
  "min_list_real [] = None"
| "min_list_real (x # xs) = (case min_list_real xs of None \<Rightarrow> Some x | Some m \<Rightarrow> Some (min x m))"

fun max_list_real :: "real list \<Rightarrow> real option" where
  "max_list_real [] = None"
| "max_list_real (x # xs) = (case max_list_real xs of None \<Rightarrow> Some x | Some m \<Rightarrow> Some (max x m))"

definition purchases_of :: "interaction list \<Rightarrow> interaction list" where
  "purchases_of rows = filter (\<lambda>i. interaction_type i = ''purchase'' \<and> 0 < i_value i) rows"

definition price_stats ::
  "interaction list \<Rightarrow> user_behavior_profile \<Rightarrow> user_behavior_profile" where
  "price_stats rows profile =
     (case (min_list_real (map i_value (purchases_of rows)),
            max_list_real (map i_value (purchases_of rows))) of
        (Some lo, Some hi) \<Rightarrow>
          profile\<lparr> price_preference :=
                     [(''min'', lo), (''max'', hi),
                      (''avg'', sum_list (map i_value (purchases_of rows)) /
                                real (length (purchases_of rows)))] \<rparr>
      | _ \<Rightarrow> profile)"

text \<open>Lines 78 to 91: the two labels, the first matching branch deciding.\<close>

definition purchase_frequency_label :: "int \<Rightarrow> string" where
  "purchase_frequency_label n_purchases =
     (if 10 < n_purchases then ''frequent''
      else if 3 < n_purchases then ''occasional''
      else ''rare'')"

definition browsing_pattern_label :: "int \<Rightarrow> int \<Rightarrow> int \<Rightarrow> string" where
  "browsing_pattern_label n_views n_interactions n_purchases =
     (if real_of_int n_interactions * (8 / 10) < real_of_int n_views then ''explorer''
      else if 1 / 10 < real_of_int n_purchases / real_of_int (max n_views 1) then ''focused''
      else ''browser'')"

definition behavioral_patterns :: "user_behavior_profile \<Rightarrow> user_behavior_profile" where
  "behavioral_patterns profile =
     profile\<lparr> purchase_frequency := purchase_frequency_label (total_purchases profile),
              browsing_pattern :=
                browsing_pattern_label (total_views profile) (total_interactions profile)
                  (total_purchases profile) \<rparr>"

text \<open>Lines 94 to 98: the positive purchase values over the number of purchases.\<close>

definition order_value ::
  "interaction list \<Rightarrow> user_behavior_profile \<Rightarrow> user_behavior_profile" where
  "order_value rows profile =
     (if 0 < total_purchases profile
      then profile\<lparr> avg_order_value :=
                      sum_list (map i_value (purchases_of rows)) /
                      real_of_int (total_purchases profile) \<rparr>
      else profile)"

text \<open>
  Lines 22 to 98: what the function computes, on the instance in memory, from the
  interactions of the user once it has the sessions.
\<close>

definition rebuild ::
  "database \<Rightarrow> product list \<Rightarrow> interaction list \<Rightarrow> user_session list \<Rightarrow>
   user_behavior_profile \<Rightarrow> user_behavior_profile" where
  "rebuild dbms prods rows ss profile =
     order_value rows
       (behavioral_patterns
          (price_stats rows
             ((last_active rows (session_metrics ss (interaction_frequencies rows profile)))
                \<lparr> preferred_categories := preferred_categories_of dbms prods rows \<rparr>)))"

text \<open>
  \<open>update_user_behavior_profile\<close>, lines 7 to 103. Only \<open>User.DoesNotExist\<close> is caught;
  \<open>profile.save()\<close> is the last statement of the \<open>try\<close> block.
\<close>

definition update_user_behavior_profile ::
  "database \<Rightarrow> behavior_db \<Rightarrow> nat \<Rightarrow> py_error option \<times> behavior_db" where
  "update_user_behavior_profile dbms db user_id =
     (case get_by (\<lambda>u. u_id u = user_id) (b_users db) of
        Inl DoesNotExist \<Rightarrow> (None, db)
      | Inl e \<Rightarrow> (Some e, db)
      | Inr u \<Rightarrow>
          (case get_or_create_profile u (behavior_profiles db) of
             Inl e \<Rightarrow> (Some e, db)
           | Inr (profile, tbl) \<Rightarrow>
               (let db1 = db\<lparr> behavior_profiles := tbl \<rparr>;
                    rows = filter (\<lambda>i. i_user i = Some (u_id u)) (b_interactions db)
                in case user_sessions db1 u of
                     Inl e \<Rightarrow> (Some e, db1)
                   | Inr ss \<Rightarrow>
                       (None, db1\<lparr> behavior_profiles :=
                                update_row (\<lambda>x. bp_id x = bp_id profile)
                                  (rebuild dbms (b_products db) rows ss profile) tbl \<rparr>))))"

section \<open>Sample data\<close>

text \<open>A store with one product, one user and one recommendation, for the examples.\<close>

definition ex_product :: product where
  "ex_product = \<lparr> p_id = 1, p_store = 1, p_title = ''P1'', p_category = ''books'',
                  p_price = Some 50 \<rparr>"

definition ex_user :: user where
  "ex_user = \<lparr> u_id = 1, u_store = 1, u_user_id = ''U'', u_total_interactions = 0,
               u_total_purchases = 0, u_total_value = 0, u_avg_order_value = 0 \<rparr>"

definition ex_interaction :: "string \<Rightarrow> real \<Rightarrow> int \<Rightarrow> interaction" where
  "ex_interaction ty v t =
     \<lparr> i_id = None, i_store = 1, i_user = Some 1, i_product = Some 1, i_session = None,
       interaction_type = ty, i_value = v, i_weight = 1, i_product_price = None,
       i_product_category = [], i_created_at = t \<rparr>"

definition ex_interaction_db :: interaction_db where
  "ex_interaction_db = \<lparr> products = [ex_product], users = [ex_user], sessions = [],
                         interactions = [] \<rparr>"

definition ex_recommendation :: recommendation where
  "ex_recommendation =
     \<lparr> r_id = 1, r_store = 1, r_user = Some 1, r_session_id = [], r_product = 1,
       r_algorithm = ''hybrid'', r_score = 1 / 2, r_rank = 1, r_context = [],
       r_explanation = ''Popular item'', shown_count = 2, click_count = 1,
       purchase_count = 1, r_created_at = 0, r_expires_at = Some 86400 \<rparr>"

definition ex_recommendation_db :: recommendation_db where
  "ex_recommendation_db = \<lparr> rec_users = [ex_user], recommendations = [ex_recommendation],
                            recommendation_profiles = [] \<rparr>"

definition ex_candidate :: candidate where
  "ex_candidate = \<lparr> c_product = ex_product, c_score = 3 / 4, c_rank = 2,
                    c_explanation = ''Similar to P2'' \<rparr>"

text \<open>
  Three engines for the examples: popularity proposes the products 1 and 2, the
  collaborative engine raises, the content engine proposes the product 2.
\<close>

definition ex_product2 :: product where
  "ex_product2 = \<lparr> p_id = 2, p_store = 1, p_title = ''P2'', p_category = ''books'',
                   p_price = Some 40 \<rparr>"

definition ex_engines :: "(string \<times> (nat \<Rightarrow> py_error + candidate list)) list" where
  "ex_engines =
     hybrid_engines
       (\<lambda>n. Inr [\<lparr> c_product = ex_product, c_score = 1 / 2, c_rank = 1,
                    c_explanation = ''Popular item with 50 interactions'' \<rparr>,
                  \<lparr> c_product = ex_product2, c_score = 1 / 4, c_rank = 2,
                    c_explanation = ''Popular item with 50 interactions'' \<rparr>])
       (\<lambda>n. Inl AttributeError)
       (\<lambda>n. Inr [\<lparr> c_product = ex_product2, c_score = 1, c_rank = 1,
                    c_explanation = ''Matches your interest in books'' \<rparr>])"

text \<open>
  A trending table for the examples: at time 10000 the product 1 has two views in the
  older half of the last hour and the product 2 one purchase in the recent half.
\<close>

definition ex_event :: "nat \<Rightarrow> string \<Rightarrow> int \<Rightarrow> interaction" where
  "ex_event pid ty t =
     \<lparr> i_id = Some (nat t), i_store = 1, i_user = Some 1, i_product = Some pid,
       i_session = None, interaction_type = ty, i_value = 1, i_weight = 1,
       i_product_price = None, i_product_category = ''books'', i_created_at = t \<rparr>"

definition ex_trending_db :: trending_db where
  "ex_trending_db =
     \<lparr> stores = [1], catalog = [ex_product, ex_product2],
       events = [ex_event 1 ''view'' 7000, ex_event 1 ''view'' 7500,
                 ex_event 2 ''purchase'' 9900],
       trending_products = [] \<rparr>"


text \<open>
  The scenario of the specification: the user \<open>U\<close> has viewed the product 1 twice and
  bought it once for 50.
\<close>

definition ex_behavior_db :: behavior_db where
  "ex_behavior_db =
     \<lparr> b_users = [ex_user], b_products = [ex_product],
       b_interactions = [(ex_event 1 ''view'' 100)\<lparr> i_weight := 1 / 10 \<rparr>,
                         (ex_event 1 ''view'' 200)\<lparr> i_weight := 1 / 10 \<rparr>,
                         (ex_event 1 ''purchase'' 300)\<lparr> i_weight := 5, i_value := 50 \<rparr>],
       b_sessions = [], behavior_profiles = [] \<rparr>"

text \<open>
  Eleven products, each of a category of its own, and one view of each by the user
  \<open>U\<close>.
\<close>

definition ex_categories :: "(nat \<times> string) list" where
  "ex_categories =
     [(1, ''b''), (2, ''c''), (3, ''d''), (4, ''e''), (5, ''f''), (6, ''g''), (7, ''h''),
      (8, ''i''), (9, ''j''), (10, ''k''), (11, ''a'')]"

definition ex_catalog :: "product list" where
  "ex_catalog =
     map (\<lambda>(n, c). \<lparr> p_id = n, p_store = 1, p_title = c, p_category = c, p_price = None \<rparr>)
       ex_categories"

definition ex_views :: "interaction list" where
  "ex_views = map (\<lambda>(n, c). (ex_event n ''view'' (int n))\<lparr> i_weight := 1 / 10 \<rparr>) ex_categories"

definition ex_category_db :: behavior_db where
  "ex_category_db =
     \<lparr> b_users = [ex_user], b_products = ex_catalog, b_interactions = ex_views,
       b_sessions = [], behavior_profiles = [] \<rparr>"

section \<open>Properties\<close>

lemma pre_save_weight:
  "pre_save prods i = Inr i1 \<Longrightarrow>
     i_weight i1 = dict_get weight_map (interaction_type i) 1 \<and>
     interaction_type i1 = interaction_type i"
  by (auto simp: pre_save_def Let_def split: option.splits sum.splits if_splits)

lemma weight_table:
  "dict_get weight_map t 1 =
     (if t = ''purchase'' then 5
      else if t = ''cart_add'' then 2
      else if t = ''review'' then 3
      else if t = ''wishlist_add'' then 3 / 2
      else if t = ''detail_view'' then 1 / 2
      else if t = ''click'' then 3 / 10
      else if t = ''like'' then 1
      else if t = ''dislike'' then 1 / 2
      else if t = ''view'' then 1 / 10
      else 1)"
  by (simp add: dict_get_def weight_map_def)

lemma model_save_row:
  "model_save now i tbl = (i2, tbl') \<Longrightarrow>
     i2 \<in> set tbl' \<and> i_weight i2 = i_weight i \<and> interaction_type i2 = interaction_type i"
  by (auto simp: model_save_def update_row_def Let_def split: option.splits if_splits)

lemma save_session_metrics_interactions:
  "save_session_metrics i db = (err, db') \<Longrightarrow> interactions db' = interactions db"
  by (auto simp: save_session_metrics_def split: option.splits sum.splits)

lemma save_user_metrics_interactions:
  "save_user_metrics i db = (err, db') \<Longrightarrow> interactions db' = interactions db"
  by (auto simp: save_user_metrics_def split: option.splits sum.splits)

subsection \<open>C4: the engagement weight is a function of the interaction type\<close>

text \<open>
  C4. Whenever \<open>Interaction.save\<close> returns, the row it stored carries the weight that
  the fixed table gives for its interaction type and 1 for a type outside the table:
  purchase 5, cart_add 2, review 3, wishlist_add 1.5, detail_view 0.5, click 0.3, like 1,
  dislike 0.5, view 0.1. The weight the instance had before the save, and every other
  field, play no part.
\<close>

theorem engagement_weight_on_save:
  assumes "interaction_save now db i = (None, i', db')"
  shows "i' \<in> set (interactions db') \<and>
         interaction_type i' = interaction_type i \<and>
         i_weight i' =
           (if interaction_type i = ''purchase'' then 5
            else if interaction_type i = ''cart_add'' then 2
            else if interaction_type i = ''review'' then 3
            else if interaction_type i = ''wishlist_add'' then 3 / 2
            else if interaction_type i = ''detail_view'' then 1 / 2
            else if interaction_type i = ''click'' then 3 / 10
            else if interaction_type i = ''like'' then 1
            else if interaction_type i = ''dislike'' then 1 / 2
            else if interaction_type i = ''view'' then 1 / 10
            else 1)"
proof -
  from assms obtain i1 where p: "pre_save (products db) i = Inr i1"
    by (auto simp: interaction_save_def split: sum.splits)
  obtain i2 tbl where m: "model_save now i1 (interactions db) = (i2, tbl)"
    by (cases "model_save now i1 (interactions db)")
  from assms p m obtain db2 where
    s: "save_session_metrics i2 (db\<lparr>interactions := tbl\<rparr>) = (None, db2)" and
    u: "save_user_metrics i2 db2 = (None, db')" and i': "i' = i2"
    by (auto simp: interaction_save_def Let_def split: prod.splits option.splits)
  have "interactions db' = tbl"
    using save_session_metrics_interactions[OF s] save_user_metrics_interactions[OF u] by simp
  moreover note model_save_row[OF m] pre_save_weight[OF p] weight_table[of "interaction_type i"]
  ultimately show ?thesis using i' by simp
qed

text \<open>Saving a purchase whose weight field held 1 stores the weight 5.\<close>

theorem engagement_weight_on_save_witness:
  "\<exists>i' db'. interaction_save 100 ex_interaction_db (ex_interaction ''purchase'' 50 0) = (None, i', db') \<and>
     i' \<in> set (interactions db') \<and> i_weight i' = 5"
proof -
  have "fst (interaction_save 100 ex_interaction_db (ex_interaction ''purchase'' 50 0)) = None"
    by (simp add: interaction_save_def pre_save_def get_by_def model_save_def
        save_session_metrics_def save_user_metrics_def ex_interaction_db_def
        ex_interaction_def ex_product_def ex_user_def Let_def)
  then obtain i' db' where
    e: "interaction_save 100 ex_interaction_db (ex_interaction ''purchase'' 50 0) = (None, i', db')"
    by (metis prod.collapse)
  from engagement_weight_on_save[OF e] have "i' \<in> set (interactions db') \<and> i_weight i' = 5"
    by (simp add: ex_interaction_def)
  with e show ?thesis by blast
qed

subsection \<open>C6: the rates computed on read\<close>

text \<open>
  C6, as amended. On every Recommendation the two derived rates are percentages:
  \<open>click_through_rate\<close> is 100 times \<open>click_count / shown_count\<close> and
  \<open>conversion_rate\<close> is 100 times \<open>purchase_count / shown_count\<close>, and both are 0
  when \<open>shown_count\<close> is 0. Neither read raises: no division by zero is reached.
\<close>

theorem rates_on_read:
  "(shown_count r = 0 \<longrightarrow> click_through_rate r = Inr 0 \<and> conversion_rate r = Inr 0) \<and>
   (shown_count r \<noteq> 0 \<longrightarrow>
      click_through_rate r =
        Inr (100 * (real_of_int (click_count r) / real_of_int (shown_count r))) \<and>
      conversion_rate r =
        Inr (100 * (real_of_int (purchase_count r) / real_of_int (shown_count r))))"
  by (simp add: click_through_rate_def conversion_rate_def truediv_def)

text \<open>One click and one purchase in two impressions: both rates are 50.\<close>

theorem rates_on_read_witness:
  "click_through_rate ex_recommendation = Inr 50 \<and> conversion_rate ex_recommendation = Inr 50 \<and>
   click_through_rate (ex_recommendation\<lparr> shown_count := 0 \<rparr>) = Inr 0 \<and>
   conversion_rate (ex_recommendation\<lparr> shown_count := 0 \<rparr>) = Inr 0"
  using rates_on_read[of ex_recommendation]
        rates_on_read[of "ex_recommendation\<lparr> shown_count := 0 \<rparr>"]
  by (simp add: ex_recommendation_def)

text \<open>
  C6 as the specification states it, the plain quotient, fails: one click in two
  impressions reads as 50, not as one half.
\<close>

theorem click_through_rate_is_a_percentage:
  "click_through_rate ex_recommendation \<noteq>
     Inr (real_of_int (click_count ex_recommendation) / real_of_int (shown_count ex_recommendation))"
  by (simp add: click_through_rate_def truediv_def ex_recommendation_def)

subsection \<open>C10: feedback on an unknown recommendation\<close>

lemma get_by_none: "\<forall>r \<in> set rows. \<not> P r \<Longrightarrow> get_by P rows = Inl DoesNotExist"
  by (simp add: get_by_def filter_False)

text \<open>
  C10. When no stored Recommendation has the given id, \<open>record_impression\<close> and
  \<open>record_click\<close> raise nothing and return the database they were given: every
  recommendation and every user profile is as before.
\<close>

theorem feedback_on_unknown_id:
  assumes "\<forall>r \<in> set (recommendations db). r_id r \<noteq> recommendation_id"
  shows "record_impression now db recommendation_id = (None, db) \<and>
         record_click now db recommendation_id = (None, db)"
  using get_by_none[of "recommendations db" "\<lambda>r. r_id r = recommendation_id"] assms
  by (simp add: record_impression_def record_click_def record_feedback_def)

text \<open>The sample database holds the recommendation 1 only; the id 7 is unknown.\<close>

theorem feedback_on_unknown_id_witness:
  "record_impression 100 ex_recommendation_db 7 = (None, ex_recommendation_db) \<and>
   record_click 100 ex_recommendation_db 7 = (None, ex_recommendation_db)"
  using feedback_on_unknown_id[of ex_recommendation_db 7 100]
  by (simp add: ex_recommendation_db_def ex_recommendation_def)

text \<open>
  On the recommendation of the sample database, shown twice so far, an impression
  gives three and the profile of the user is created with the new totals.
\<close>

lemma record_impression_known_id:
  "map shown_count (recommendations (snd (record_impression 100 ex_recommendation_db 1))) = [3] \<and>
   map (\<lambda>p. (total_recommendations_shown p, total_recommendations_clicked p))
     (recommendation_profiles (snd (record_impression 100 ex_recommendation_db 1))) = [(3, 1)] \<and>
   fst (record_impression 100 ex_recommendation_db 1) = None"
  by (simp add: record_impression_def record_feedback_def get_by_def increment_shown_def
      update_user_profile_def update_performance_metrics_def update_row_def
      ex_recommendation_db_def ex_recommendation_def ex_user_def Let_def)

subsection \<open>C1: the upsert of a recommendation\<close>

lemma get_by_one: "filter P rows = [r] \<Longrightarrow> get_by P rows = Inr r"
  by (simp add: get_by_def)

lemma fold_max_ge: "x \<in> set xs \<Longrightarrow> x \<le> fold max xs (m::nat)"
proof (induction xs arbitrary: m)
  case Nil
  then show ?case by simp
next
  case (Cons a xs)
  have mono: "\<And>k. k \<le> fold max xs k"
  proof -
    fix k show "k \<le> fold max xs k"
    proof (induction xs arbitrary: k)
      case Nil
      then show ?case by simp
    next
      case (Cons b ys)
      have "k \<le> max b k" by simp
      also have "\<dots> \<le> fold max ys (max b k)" by (rule Cons.IH)
      finally show ?case by simp
    qed
  qed
  show ?case
  proof (cases "x = a")
    case True
    have "a \<le> max a m" by simp
    also have "\<dots> \<le> fold max xs (max a m)" by (rule mono)
    finally show ?thesis using True by simp
  next
    case False
    with Cons.prems have "x \<in> set xs" by simp
    from Cons.IH[OF this] show ?thesis by simp
  qed
qed

lemma fresh_ident:
  "x \<in> set tbl \<Longrightarrow> ident x \<noteq> Suc (fold max (map ident tbl) 0)"
  using fold_max_ge[of "ident x" "map ident tbl" 0] by auto

lemma same_ident:
  "distinct (map ident tbl) \<Longrightarrow> old \<in> set tbl \<Longrightarrow> x \<in> set tbl \<Longrightarrow>
     ident x = ident old \<Longrightarrow> x = old"
  by (meson distinct_map inj_onD)

lemma filter_update_row:
  assumes "distinct (map ident tbl)" "old \<in> set tbl" "ident r = ident old" "P r = P old"
  shows "filter P (update_row (\<lambda>x. ident x = ident old) r tbl) =
         update_row (\<lambda>x. ident x = ident old) r (filter P tbl)"
proof -
  have eq: "\<And>x. x \<in> set tbl \<Longrightarrow> ident x = ident old \<Longrightarrow> x = old"
    using same_ident[OF assms(1,2)] by blast
  have "\<And>ys. set ys \<subseteq> set tbl \<Longrightarrow>
     filter P (update_row (\<lambda>x. ident x = ident old) r ys) =
       update_row (\<lambda>x. ident x = ident old) r (filter P ys)"
  proof -
    fix ys show "set ys \<subseteq> set tbl \<Longrightarrow>
     filter P (update_row (\<lambda>x. ident x = ident old) r ys) =
       update_row (\<lambda>x. ident x = ident old) r (filter P ys)"
      using eq assms(4) by (induction ys) (auto simp: update_row_def)
  qed
  then show ?thesis by simp
qed

lemma update_row_ids:
  "ident r = k \<Longrightarrow> map ident (update_row (\<lambda>x. ident x = k) r tbl) = map ident tbl"
  by (induction tbl) (auto simp: update_row_def)

lemma filter_other_update_row:
  assumes "distinct (map ident tbl)" "old \<in> set tbl" "\<not> Q old" "\<not> Q r"
  shows "filter Q (update_row (\<lambda>x. ident x = ident old) r tbl) = filter Q tbl"
proof -
  have eq: "\<And>x. x \<in> set tbl \<Longrightarrow> ident x = ident old \<Longrightarrow> x = old"
    using same_ident[OF assms(1,2)] by blast
  have "\<And>ys. set ys \<subseteq> set tbl \<Longrightarrow>
     filter Q (update_row (\<lambda>x. ident x = ident old) r ys) = filter Q ys"
  proof -
    fix ys show "set ys \<subseteq> set tbl \<Longrightarrow>
     filter Q (update_row (\<lambda>x. ident x = ident old) r ys) = filter Q ys"
      using eq assms(3,4) by (induction ys) (auto simp: update_row_def)
  qed
  then show ?thesis by simp
qed

text \<open>The rows of a table after one row was replaced.\<close>

lemma set_update_row:
  assumes "distinct (map ident tbl)" "old \<in> set tbl"
  shows "set (update_row (\<lambda>x. ident x = ident old) r tbl) = insert r (set tbl - {old})"
proof -
  have eq: "\<And>x. x \<in> set tbl \<Longrightarrow> ident x = ident old \<longleftrightarrow> x = old"
    using same_ident[OF assms] by blast
  have "set (update_row (\<lambda>x. ident x = ident old) r tbl) =
          (\<lambda>x. if ident x = ident old then r else x) ` set tbl"
    by (simp add: update_row_def)
  also have "\<dots> = (\<lambda>x. if x = old then r else x) ` set tbl"
    by (rule image_cong) (simp_all add: eq)
  also have "\<dots> = insert r (set tbl - {old})"
    using assms(2) by auto
  finally show ?thesis .
qed

lemma r_id_updated_row [simp]: "r_id (updated_row now context rec old) = r_id old"
  by (simp add: updated_row_def)

lemma upsert_existing:
  assumes "user_column user_id = Inr user_pk"
    and "filter (\<lambda>r. key_of r = request_key store user_pk session_id algorithm rec) tbl = [old]"
  shows "upsert_recommendation now user_rows store user_id session_id algorithm context rec tbl =
           Inr (updated_row now context rec old,
                update_row (\<lambda>x. r_id x = r_id old) (updated_row now context rec old) tbl)"
  using get_by_one[OF assms(2)] assms(1)
  by (simp add: upsert_recommendation_def Let_def)

lemma upsert_new:
  assumes "user_column user_id = Inr user_pk" and "user_exists user_rows user_pk"
    and "filter (\<lambda>r. key_of r = request_key store user_pk session_id algorithm rec) tbl = []"
  shows "upsert_recommendation now user_rows store user_id session_id algorithm context rec tbl =
           Inr (created_row now (request_key store user_pk session_id algorithm rec) context rec tbl,
                tbl @ [created_row now (request_key store user_pk session_id algorithm rec)
                         context rec tbl])"
  using assms by (simp add: upsert_recommendation_def Let_def get_by_def)

lemma key_of_created_row: "key_of (created_row now k context rec tbl) = k"
  by (simp add: key_of_def created_row_def)

lemma key_of_updated_row: "key_of (updated_row now context rec old) = key_of old"
  by (simp add: key_of_def updated_row_def)

text \<open>What one upsert establishes, for use twice.\<close>

lemma upsert_step:
  assumes d: "distinct (map r_id tbl)"
    and u: "length (filter (\<lambda>r. key_of r = k) tbl) \<le> 1"
    and c: "user_column user_id = Inr user_pk"
    and x: "user_exists user_rows user_pk"
    and k: "k = request_key store user_pk session_id algorithm rec"
  shows "\<exists>r tbl1.
     upsert_recommendation now user_rows store user_id session_id algorithm context rec tbl =
       Inr (r, tbl1) \<and>
     distinct (map r_id tbl1) \<and>
     filter (\<lambda>x. key_of x = k) tbl1 = [r] \<and>
     filter (\<lambda>x. key_of x \<noteq> k) tbl1 = filter (\<lambda>x. key_of x \<noteq> k) tbl \<and>
     (case filter (\<lambda>x. key_of x = k) tbl of
        [] \<Rightarrow> r = created_row now k context rec tbl \<and> tbl1 = tbl @ [r]
      | old # _ \<Rightarrow> r = updated_row now context rec old \<and> length tbl1 = length tbl)"
proof (cases "filter (\<lambda>x. key_of x = k) tbl")
  case Nil
  let ?r = "created_row now k context rec tbl"
  have e: "upsert_recommendation now user_rows store user_id session_id algorithm context rec tbl =
             Inr (?r, tbl @ [?r])"
    using upsert_new[OF c x, of store session_id algorithm rec tbl now "context"] Nil k by simp
  have fresh: "r_id ?r \<notin> set (map r_id tbl)"
  proof
    assume "r_id ?r \<in> set (map r_id tbl)"
    then obtain x where "x \<in> set tbl" "r_id x = r_id ?r" by auto
    with fresh_ident[of x tbl r_id] show False by (simp add: created_row_def)
  qed
  have "distinct (map r_id (tbl @ [?r]))" using d fresh by simp
  moreover have "filter (\<lambda>x. key_of x = k) (tbl @ [?r]) = [?r]"
    using Nil by (simp add: key_of_created_row)
  moreover have "filter (\<lambda>x. key_of x \<noteq> k) (tbl @ [?r]) = filter (\<lambda>x. key_of x \<noteq> k) tbl"
    by (simp add: key_of_created_row)
  ultimately show ?thesis using e Nil by simp
next
  case (Cons old rest)
  with u have f: "filter (\<lambda>x. key_of x = k) tbl = [old]" by simp
  let ?r = "updated_row now context rec old"
  let ?t = "update_row (\<lambda>x. r_id x = r_id old) ?r tbl"
  have mem: "old \<in> set tbl" and ko: "key_of old = k"
  proof -
    have "old \<in> set (filter (\<lambda>x. key_of x = k) tbl)" using f by simp
    then show "old \<in> set tbl" and "key_of old = k" by simp_all
  qed
  have e: "upsert_recommendation now user_rows store user_id session_id algorithm context rec tbl =
             Inr (?r, ?t)"
    using upsert_existing[OF c, of store session_id algorithm rec tbl old now user_rows "context"] f k
    by simp
  have "distinct (map r_id ?t)"
    using d update_row_ids[of r_id ?r "r_id old" tbl] by simp
  moreover have "filter (\<lambda>x. key_of x = k) ?t = [?r]"
    using filter_update_row[OF d mem, where r = ?r and P = "\<lambda>x. key_of x = k"] f
    by (simp add: key_of_updated_row ko update_row_def)
  moreover have "filter (\<lambda>x. key_of x \<noteq> k) ?t = filter (\<lambda>x. key_of x \<noteq> k) tbl"
    using filter_other_update_row[OF d mem, where Q = "\<lambda>x. key_of x \<noteq> k" and r = ?r]
    by (simp add: key_of_updated_row ko)
  moreover have "length ?t = length tbl" by (simp add: update_row_def)
  ultimately show ?thesis using e f by simp
qed

text \<open>
  The upsert where the key resolves: the user id is absent, or it is the primary key of
  a user row written as a number. On a table where primary keys are unique and the key
  (store, user, session, product, algorithm) names at most one row, the upsert returns
  a row \<open>r\<close> and leaves exactly that row under the key, every row of another key being
  as before. The row carries the score, rank, explanation and context given and expires
  24 hours after the call. If a row was stored under the key, \<open>r\<close> is that row with its
  three counters unchanged; if none was, \<open>r\<close> is appended with the three counters at 0.
  A second upsert with the same inputs, at any later time, again leaves one row under
  the key and as many rows in the table, with the counters it found.
\<close>

lemma upsert_keeps_counters:
  assumes d: "distinct (map r_id tbl)"
    and u: "length (filter (\<lambda>r. key_of r = k) tbl) \<le> 1"
    and c: "user_column user_id = Inr user_pk"
    and x: "user_exists user_rows user_pk"
    and k: "k = request_key store user_pk session_id algorithm rec"
  shows "\<exists>r tbl1 r2 tbl2.
     upsert_recommendation now user_rows store user_id session_id algorithm context rec tbl =
       Inr (r, tbl1) \<and>
     upsert_recommendation now2 user_rows store user_id session_id algorithm context rec tbl1 =
       Inr (r2, tbl2) \<and>
     filter (\<lambda>x. key_of x = k) tbl1 = [r] \<and>
     filter (\<lambda>x. key_of x \<noteq> k) tbl1 = filter (\<lambda>x. key_of x \<noteq> k) tbl \<and>
     r_score r = c_score rec \<and> r_rank r = c_rank rec \<and>
     r_explanation r = c_explanation rec \<and>
     r_context r = (case context of None \<Rightarrow> [] | Some c \<Rightarrow> c) \<and>
     r_expires_at r = Some (now + 24 * 3600) \<and>
     (\<forall>old \<in> set tbl. key_of old = k \<longrightarrow>
        r_id r = r_id old \<and> shown_count r = shown_count old \<and>
        click_count r = click_count old \<and> purchase_count r = purchase_count old) \<and>
     ((\<forall>old \<in> set tbl. key_of old \<noteq> k) \<longrightarrow>
        tbl1 = tbl @ [r] \<and> shown_count r = 0 \<and> click_count r = 0 \<and> purchase_count r = 0) \<and>
     filter (\<lambda>x. key_of x = k) tbl2 = [r2] \<and> length tbl2 = length tbl1 \<and>
     r_id r2 = r_id r \<and> r_expires_at r2 = Some (now2 + 24 * 3600) \<and>
     shown_count r2 = shown_count r \<and> click_count r2 = click_count r \<and>
     purchase_count r2 = purchase_count r"
proof -
  from upsert_step[OF d u c x k, of now "context"] obtain r tbl1 where
    e1: "upsert_recommendation now user_rows store user_id session_id algorithm context rec tbl =
           Inr (r, tbl1)"
    and d1: "distinct (map r_id tbl1)"
    and f1: "filter (\<lambda>x. key_of x = k) tbl1 = [r]"
    and o1: "filter (\<lambda>x. key_of x \<noteq> k) tbl1 = filter (\<lambda>x. key_of x \<noteq> k) tbl"
    and c1: "(case filter (\<lambda>x. key_of x = k) tbl of
        [] \<Rightarrow> r = created_row now k context rec tbl \<and> tbl1 = tbl @ [r]
      | old # _ \<Rightarrow> r = updated_row now context rec old \<and> length tbl1 = length tbl)"
    by blast
  have u1: "length (filter (\<lambda>r. key_of r = k) tbl1) \<le> 1" using f1 by simp
  from upsert_step[OF d1 u1 c x k, of now2 "context"] f1 obtain r2 tbl2 where
    e2: "upsert_recommendation now2 user_rows store user_id session_id algorithm context rec tbl1 =
           Inr (r2, tbl2)"
    and f2: "filter (\<lambda>x. key_of x = k) tbl2 = [r2]"
    and c2: "r2 = updated_row now2 context rec r" and l2: "length tbl2 = length tbl1"
    by auto
  have fields: "r_score r = c_score rec \<and> r_rank r = c_rank rec \<and>
     r_explanation r = c_explanation rec \<and>
     r_context r = (case context of None \<Rightarrow> [] | Some c \<Rightarrow> c) \<and>
     r_expires_at r = Some (now + 24 * 3600)"
    using c1 by (cases "filter (\<lambda>x. key_of x = k) tbl")
      (simp_all add: created_row_def updated_row_def)
  have existing: "\<forall>old \<in> set tbl. key_of old = k \<longrightarrow>
        r_id r = r_id old \<and> shown_count r = shown_count old \<and>
        click_count r = click_count old \<and> purchase_count r = purchase_count old"
  proof (intro ballI impI)
    fix old assume "old \<in> set tbl" "key_of old = k"
    then have "old \<in> set (filter (\<lambda>x. key_of x = k) tbl)" by simp
    with u have "filter (\<lambda>x. key_of x = k) tbl = [old]"
      by (cases "filter (\<lambda>x. key_of x = k) tbl") auto
    with c1 show "r_id r = r_id old \<and> shown_count r = shown_count old \<and>
        click_count r = click_count old \<and> purchase_count r = purchase_count old"
      by (simp add: updated_row_def)
  qed
  have fresh: "(\<forall>old \<in> set tbl. key_of old \<noteq> k) \<longrightarrow>
        tbl1 = tbl @ [r] \<and> shown_count r = 0 \<and> click_count r = 0 \<and> purchase_count r = 0"
  proof
    assume "\<forall>old \<in> set tbl. key_of old \<noteq> k"
    then have "filter (\<lambda>x. key_of x = k) tbl = []" by (simp add: filter_empty_conv)
    with c1 show "tbl1 = tbl @ [r] \<and> shown_count r = 0 \<and> click_count r = 0 \<and> purchase_count r = 0"
      by (simp add: created_row_def)
  qed
  have second: "r_id r2 = r_id r \<and> r_expires_at r2 = Some (now2 + 24 * 3600) \<and>
     shown_count r2 = shown_count r \<and> click_count r2 = click_count r \<and>
     purchase_count r2 = purchase_count r"
    using c2 by (simp add: updated_row_def)
  from e1 e2 f1 o1 fields existing fresh f2 l2 second show ?thesis by blast
qed

lemma py_int_1: "py_int ''1'' = Inr 1"
  by (simp add: py_int_def strip_def is_space_def is_digit_def)

text \<open>
  The sample recommendation, shown twice and clicked and bought once, is upserted twice
  with a new score for the user id \<open>1\<close>, the primary key of the sample user: one row
  remains and the counters are 2, 1 and 1 after each call.
\<close>

lemma upsert_keeps_counters_example:
  "\<exists>r r2. upsert_recommendation 100 [ex_user] 1 (Some ''1'') None None None ex_candidate
             [ex_recommendation] = Inr (r, [r]) \<and>
     upsert_recommendation 200 [ex_user] 1 (Some ''1'') None None None ex_candidate [r] =
       Inr (r2, [r2]) \<and>
     r_score r = 3 / 4 \<and> r_expires_at r = Some 86500 \<and>
     shown_count r = 2 \<and> click_count r = 1 \<and> purchase_count r = 1 \<and>
     shown_count r2 = 2 \<and> click_count r2 = 1 \<and> purchase_count r2 = 1"
proof -
  let ?k = "request_key 1 (Some 1) None None ex_candidate"
  have k: "key_of ex_recommendation = ?k"
    by (simp add: key_of_def request_key_def ex_recommendation_def ex_candidate_def ex_product_def)
  have d: "distinct (map r_id [ex_recommendation])" by simp
  have u: "length (filter (\<lambda>r. key_of r = ?k) [ex_recommendation]) \<le> 1" by simp
  have c: "user_column (Some ''1'') = Inr (Some 1)"
    by (simp add: user_column_def py_int_1)
  have x: "user_exists [ex_user] (Some 1)"
    by (simp add: user_exists_def ex_user_def)
  from upsert_keeps_counters[OF d u c x refl, of 100 None 200] obtain r tbl1 r2 tbl2 where
    e1: "upsert_recommendation 100 [ex_user] 1 (Some ''1'') None None None ex_candidate
           [ex_recommendation] = Inr (r, tbl1)"
    and e2: "upsert_recommendation 200 [ex_user] 1 (Some ''1'') None None None ex_candidate tbl1 =
           Inr (r2, tbl2)"
    and f1: "filter (\<lambda>x. key_of x = ?k) tbl1 = [r]"
    and o1: "filter (\<lambda>x. key_of x \<noteq> ?k) tbl1 = filter (\<lambda>x. key_of x \<noteq> ?k) [ex_recommendation]"
    and s: "r_score r = c_score ex_candidate" and x: "r_expires_at r = Some (100 + 24 * 3600)"
    and c: "\<forall>old \<in> set [ex_recommendation]. key_of old = ?k \<longrightarrow>
        r_id r = r_id old \<and> shown_count r = shown_count old \<and>
        click_count r = click_count old \<and> purchase_count r = purchase_count old"
    and f2: "filter (\<lambda>x. key_of x = ?k) tbl2 = [r2]" and l2: "length tbl2 = length tbl1"
    and c2: "shown_count r2 = shown_count r \<and> click_count r2 = click_count r \<and>
     purchase_count r2 = purchase_count r"
    by blast
  have "filter (\<lambda>x. key_of x \<noteq> ?k) tbl1 = []" using o1 k by simp
  then have all1: "\<forall>x \<in> set tbl1. key_of x = ?k" by (simp add: filter_empty_conv)
  then have "filter (\<lambda>x. key_of x = ?k) tbl1 = tbl1" by simp
  with f1 have t1: "tbl1 = [r]" by simp
  then have "length tbl2 = 1" using l2 by simp
  then obtain y where "tbl2 = [y]" by (cases tbl2) auto
  with f2 have t2: "tbl2 = [r2]" by (auto split: if_splits)
  have "shown_count r = 2 \<and> click_count r = 1 \<and> purchase_count r = 1"
    using c k by (simp add: ex_recommendation_def)
  with e1 e2 t1 t2 s x c2 show ?thesis
    by (auto simp: ex_candidate_def)
qed

text \<open>
  A user id that is a number but the primary key of no user row: nothing is stored under
  the key, the insert violates the foreign key and raises \<open>IntegrityError\<close>.
\<close>

lemma upsert_unknown_primary_key:
  "upsert_recommendation 100 [ex_user] 1 (Some ''42'') None None None ex_candidate [] =
     Inl IntegrityError"
  by (simp add: upsert_recommendation_def user_column_def py_int_def strip_def is_space_def
      is_digit_def user_exists_def ex_user_def get_by_def Let_def)

text \<open>
  C1. The subject of a request for a user is the identifier the store gives the user,
  the string the engines look up in \<open>User.user_id\<close>. The sample user has the identifier
  \<open>U\<close> and the primary key 1. For the subject \<open>U\<close> the upsert raises \<open>ValueError\<close> at the
  lookup of the key, on an empty table and on a table that holds the recommendation
  of that user for the product alike: no row is inserted, none is updated, and the loop
  over the candidates ends at its first turn with nothing stored.
\<close>

theorem upsert_raises_for_store_user_id:
  "u_user_id ex_user = ''U'' \<and> u_id ex_user = 1 \<and> r_user ex_recommendation = Some 1 \<and>
   upsert_recommendation 100 [ex_user] 1 (Some ''U'') None None None ex_candidate [] =
     Inl ValueError \<and>
   upsert_recommendation 100 [ex_user] 1 (Some ''U'') None None None ex_candidate
     [ex_recommendation] = Inl ValueError \<and>
   store_recommendations 100 [ex_user] 1 (Some ''U'') None None None [ex_candidate]
     [ex_recommendation] = (Some ValueError, [], [ex_recommendation])"
  by (simp add: upsert_recommendation_def user_column_def py_int_def strip_def is_space_def
      is_digit_def ex_user_def ex_recommendation_def)

subsection \<open>C9: the collaborative engine on an unknown or new user\<close>

text \<open>
  C9. The collaborative engine returns the empty list, and raises nothing, when no user
  id is given, when no user of the store has the id, and when the one user of the store
  with the id has no interaction.
\<close>

theorem collaborative_empty_for_new_users:
  "collaborative_get_recommendations db store None max_results = Inr [] \<and>
   ((\<forall>u \<in> set (users db). u_store u = store \<longrightarrow> u_user_id u \<noteq> uid) \<longrightarrow>
      collaborative_get_recommendations db store (Some uid) max_results = Inr []) \<and>
   (filter (\<lambda>u. u_store u = store \<and> u_user_id u = uid) (users db) = [user] \<and>
    (\<forall>i \<in> set (interactions db). i_user i \<noteq> Some (u_id user)) \<longrightarrow>
      collaborative_get_recommendations db store (Some uid) max_results = Inr [])"
proof (intro conjI impI)
  show "collaborative_get_recommendations db store None max_results = Inr []"
    by (simp add: collaborative_get_recommendations_def)
next
  assume "\<forall>u \<in> set (users db). u_store u = store \<longrightarrow> u_user_id u \<noteq> uid"
  then have "get_by (\<lambda>u. u_store u = store \<and> u_user_id u = uid) (users db) = Inl DoesNotExist"
    by (intro get_by_none) auto
  then show "collaborative_get_recommendations db store (Some uid) max_results = Inr []"
    by (simp add: collaborative_get_recommendations_def)
next
  assume a: "filter (\<lambda>u. u_store u = store \<and> u_user_id u = uid) (users db) = [user] \<and>
    (\<forall>i \<in> set (interactions db). i_user i \<noteq> Some (u_id user))"
  then have g: "get_by (\<lambda>u. u_store u = store \<and> u_user_id u = uid) (users db) = Inr user"
    by (simp add: get_by_one)
  from a have "filter (\<lambda>i. i_user i = Some (u_id user)) (interactions db) = []"
    by (simp add: filter_empty_conv)
  with g show "collaborative_get_recommendations db store (Some uid) max_results = Inr []"
    by (simp add: collaborative_get_recommendations_def)
qed

text \<open>
  The sample store has the user \<open>U\<close> and no interaction: asking for \<open>U\<close>, for the
  unknown \<open>V\<close> and for nobody gives the empty list each time.
\<close>

theorem collaborative_empty_for_new_users_witness:
  "collaborative_get_recommendations ex_interaction_db 1 None 10 = Inr [] \<and>
   collaborative_get_recommendations ex_interaction_db 1 (Some ''V'') 10 = Inr [] \<and>
   collaborative_get_recommendations ex_interaction_db 1 (Some ''U'') 10 = Inr []"
proof -
  have 1: "\<forall>u \<in> set (users ex_interaction_db). u_store u = 1 \<longrightarrow> u_user_id u \<noteq> ''V''"
    by (simp add: ex_interaction_db_def ex_user_def)
  have 2: "filter (\<lambda>u. u_store u = 1 \<and> u_user_id u = ''U'') (users ex_interaction_db) = [ex_user] \<and>
    (\<forall>i \<in> set (interactions ex_interaction_db). i_user i \<noteq> Some (u_id ex_user))"
    by (simp add: ex_interaction_db_def ex_user_def)
  show ?thesis
    using collaborative_empty_for_new_users[of ex_interaction_db 1 10 "''V''" ex_user] 1
      collaborative_empty_for_new_users[of ex_interaction_db 1 10 "''U''" ex_user] 2
    by blast
qed

subsection \<open>C3: the hybrid combiner\<close>

lemma dict_set_twice: "dict_set (dict_set d n a) n b = dict_set d n b"
  by (induction d) auto

lemma dict_set_fresh: "n \<notin> fst ` set d \<Longrightarrow> dict_set d n s = d @ [(n, s)]"
  by (induction d) auto

lemma dict_set_keys: "k \<in> fst ` set (dict_set d n s) \<longleftrightarrow> k = n \<or> k \<in> fst ` set d"
proof (induction d)
  case Nil
  then show ?case by simp
next
  case (Cons a d)
  obtain k' v' where a: "a = (k', v')" by (cases a)
  show ?case
  proof (cases "k' = n")
    case True
    then show ?thesis using a by auto
  next
    case False
    then show ?thesis using a Cons.IH by auto
  qed
qed

lemma dict_set_nonempty: "dict_set d n s \<noteq> []"
  by (cases d) (auto split: if_splits)

lemma map_of_map_entry:
  "map_of (map (\<lambda>(k, e). if k = p then (k, g e) else (k, e)) xs) q =
     (if q = p then map_option g (map_of xs q) else map_of xs q)"
  by (induction xs) auto

lemma scores_of_add:
  "scores_of (add_recommendation n rec all) pid =
     (if pid = p_id (c_product rec) then dict_set (scores_of all pid) n (c_score rec)
      else scores_of all pid)"
proof -
  let ?p = "p_id (c_product rec)"
  let ?g = "\<lambda>e. e\<lparr> h_scores := dict_set (h_scores e) n (c_score rec),
                   h_explanations := h_explanations e @ [c_explanation rec] \<rparr>"
  let ?e0 = "\<lparr> h_product = c_product rec, h_scores = [], h_explanations = [] \<rparr>"
  let ?all1 = "if ?p \<in> fst ` set all then all else all @ [(?p, ?e0)]"
  have a: "add_recommendation n rec all =
             map (\<lambda>(k, e). if k = ?p then (k, ?g e) else (k, e)) ?all1"
    by (simp add: add_recommendation_def Let_def)
  have m: "map_of ?all1 pid =
             (case map_of all pid of Some e \<Rightarrow> Some e
              | None \<Rightarrow> if pid = ?p then Some ?e0 else None)"
  proof (cases "?p \<in> fst ` set all")
    case True
    then have "map_of all ?p \<noteq> None" by (simp add: map_of_eq_None_iff)
    with True show ?thesis by (auto split: option.splits)
  next
    case False
    then have "map_of all ?p = None" by (simp add: map_of_eq_None_iff)
    with False show ?thesis by (auto simp: map_add_def split: option.splits)
  qed
  show ?thesis
    unfolding scores_of_def a map_of_map_entry m
    by (auto split: option.splits)
qed

lemma engine_score_Cons:
  "engine_score (r # recs) pid =
     (case engine_score recs pid of
        Some s \<Rightarrow> Some s
      | None \<Rightarrow> if p_id (c_product r) = pid then Some (c_score r) else None)"
  by (auto simp: engine_score_def split: list.splits)

lemma scores_of_engine:
  "scores_of (fold (add_recommendation n) recs all) pid =
     (case engine_score recs pid of
        None \<Rightarrow> scores_of all pid
      | Some s \<Rightarrow> dict_set (scores_of all pid) n s)"
proof (induction recs arbitrary: all)
  case Nil
  then show ?case by (simp add: engine_score_def)
next
  case (Cons r recs)
  show ?case
    by (simp add: Cons.IH scores_of_add engine_score_Cons dict_set_twice split: option.splits)
qed


lemma entries_ok_add:
  assumes "entries_ok all"
  shows "entries_ok (add_recommendation n rec all)"
proof -
  let ?p = "p_id (c_product rec)"
  let ?g = "\<lambda>e. e\<lparr> h_scores := dict_set (h_scores e) n (c_score rec),
                   h_explanations := h_explanations e @ [c_explanation rec] \<rparr>"
  let ?e0 = "\<lparr> h_product = c_product rec, h_scores = [], h_explanations = [] \<rparr>"
  let ?all1 = "if ?p \<in> fst ` set all then all else all @ [(?p, ?e0)]"
  let ?f = "\<lambda>(k, e). if k = ?p then (k, ?g e) else (k, e)"
  have a: "add_recommendation n rec all = map ?f ?all1"
    by (simp add: add_recommendation_def Let_def)
  have keys: "map fst (map ?f ?all1) = map fst ?all1"
    by (auto split: prod.splits)
  have d: "distinct (map fst ?all1)"
    using assms by (auto simp: entries_ok_def)
  have old: "\<And>k e. (k, e) \<in> set ?all1 \<Longrightarrow> p_id (h_product e) = k \<and> (k \<noteq> ?p \<longrightarrow> h_scores e \<noteq> [])"
    using assms by (auto simp: entries_ok_def list_all_iff split: if_splits)
  have "\<And>k e. (k, e) \<in> set (map ?f ?all1) \<Longrightarrow> p_id (h_product e) = k \<and> h_scores e \<noteq> []"
  proof -
    fix k e assume "(k, e) \<in> set (map ?f ?all1)"
    then obtain k' e' where m: "(k', e') \<in> set ?all1" and fe: "(k, e) = ?f (k', e')"
      by auto
    from old[OF m] fe show "p_id (h_product e) = k \<and> h_scores e \<noteq> []"
      by (cases "k' = ?p") (auto simp: dict_set_nonempty)
  qed
  then have la: "list_all (\<lambda>(k, e). p_id (h_product e) = k \<and> h_scores e \<noteq> []) (map ?f ?all1)"
    unfolding list_all_iff by blast
  have dk: "distinct (map fst (map ?f ?all1))"
    unfolding keys by (rule d)
  show ?thesis unfolding a entries_ok_def by (intro conjI dk la)
qed

lemma entries_ok_engine:
  "entries_ok all \<Longrightarrow> entries_ok (fold (add_recommendation n) recs all)"
  by (induction recs arbitrary: all) (simp_all add: entries_ok_add)

lemma entries_ok_collect: "entries_ok (collect_recommendations engines k)"
proof -
  have "\<And>all. entries_ok all \<Longrightarrow>
     entries_ok (fold (\<lambda>(engine_name, engine) all_recommendations.
             case engine (k * 2) of
               Inl e \<Rightarrow> all_recommendations
             | Inr engine_recommendations \<Rightarrow>
                 fold (add_recommendation engine_name) engine_recommendations all_recommendations)
       engines all)"
  proof (induction engines)
    case Nil
    then show ?case by simp
  next
    case (Cons a engines)
    obtain n eng where a: "a = (n, eng)" by (cases a)
    show ?case using Cons.prems a
      by (auto intro!: Cons.IH entries_ok_engine split: sum.splits)
  qed
  moreover have "entries_ok []" by (simp add: entries_ok_def)
  ultimately show ?thesis unfolding collect_recommendations_def by blast
qed

lemma entries_ok_entry:
  assumes "entries_ok all" "(k, e) \<in> set all"
  shows "scores_of all k = h_scores e \<and> p_id (h_product e) = k \<and> h_scores e \<noteq> []"
proof -
  from assms have "map_of all k = Some e" by (simp add: entries_ok_def)
  moreover from assms have "p_id (h_product e) = k \<and> h_scores e \<noteq> []"
    by (auto simp: entries_ok_def list_all_iff)
  ultimately show ?thesis by (simp add: scores_of_def)
qed

lemma disjoint_after_step:
  "C \<subseteq> {n} \<Longrightarrow> A \<inter> E = {} \<Longrightarrow> B = A \<union> C \<Longrightarrow> n \<notin> E \<Longrightarrow> B \<inter> E = {}"
  by blast

lemma scores_of_collect_gen:
  assumes "distinct (map fst engines)"
    and "\<And>q. fst ` set (scores_of all q) \<inter> fst ` set engines = {}"
  shows "scores_of (fold (\<lambda>(engine_name, engine) all_recommendations.
             case engine (k * 2) of
               Inl e \<Rightarrow> all_recommendations
             | Inr engine_recommendations \<Rightarrow>
                 fold (add_recommendation engine_name) engine_recommendations all_recommendations)
       engines all) pid = scores_of all pid @ contributions engines k pid"
  using assms
proof (induction engines arbitrary: all)
  case Nil
  then show ?case by (simp add: contributions_def)
next
  case (Cons a engines)
  obtain n eng where a: "a = (n, eng)" by (cases a)
  let ?c = "\<lambda>q. (case eng (k * 2) of Inl e \<Rightarrow> []
                 | Inr recs \<Rightarrow> (case engine_score recs q of None \<Rightarrow> [] | Some s \<Rightarrow> [(n, s)]))"
  let ?all' = "case eng (k * 2) of Inl e \<Rightarrow> all
               | Inr recs \<Rightarrow> fold (add_recommendation n) recs all"
  have fresh: "\<And>q. n \<notin> fst ` set (scores_of all q)"
    using Cons.prems(2) a by auto
  have step: "\<And>q. scores_of ?all' q = scores_of all q @ ?c q"
    using fresh by (auto simp: scores_of_engine dict_set_fresh split: sum.splits option.splits)
  have n: "n \<notin> fst ` set engines" and d: "distinct (map fst engines)"
    using Cons.prems(1) a by auto
  have disj: "\<And>q. fst ` set (scores_of ?all' q) \<inter> fst ` set engines = {}"
  proof -
    fix q
    have 1: "fst ` set (?c q) \<subseteq> {n}" by (auto split: sum.splits option.splits)
    have 2: "fst ` set (scores_of all q) \<inter> fst ` set engines = {}"
      using Cons.prems(2)[of q] by auto
    have 3: "fst ` set (scores_of ?all' q) =
        fst ` set (scores_of all q) \<union> fst ` set (?c q)"
      unfolding step by (simp add: image_Un)
    show "fst ` set (scores_of ?all' q) \<inter> fst ` set engines = {}"
      by (rule disjoint_after_step[OF 1 2 3 n])
  qed
  have "contributions (a # engines) k pid = ?c pid @ contributions engines k pid"
    by (simp add: contributions_def a)
  with Cons.IH[OF d disj] step[of pid] show ?case by (simp add: a)
qed

lemma scores_of_collect:
  "distinct (map fst engines) \<Longrightarrow>
     scores_of (collect_recommendations engines k) pid = contributions engines k pid"
  using scores_of_collect_gen[of engines "[]" k pid]
  by (simp add: collect_recommendations_def scores_of_def)


lemma combined_fold:
  "fold (\<lambda>(n, s) (c, t). (c + s * w n, t + w n)) cs (c0, t0) =
     (c0 + (\<Sum>(n, s) \<leftarrow> cs. w n * s), t0 + (\<Sum>(n, s) \<leftarrow> cs. w n))"
  for w :: "string \<Rightarrow> real"
  by (induction cs arbitrary: c0 t0) (auto simp: algebra_simps)

lemma weight_of_weights: "dict_get weights n (1 / 10) = weight_of n"
  by (simp add: dict_get_def weights_def weight_of_def)

lemma weight_of_pos: "0 < weight_of n"
  by (simp add: weight_of_def)

lemma sum_weights_pos: "cs \<noteq> [] \<Longrightarrow> 0 < (\<Sum>(n, s) \<leftarrow> cs. weight_of n)"
proof (induction cs)
  case Nil
  then show ?case by simp
next
  case (Cons a cs)
  obtain n s where a: "a = (n, s)" by (cases a)
  have "0 \<le> (\<Sum>(n, s) \<leftarrow> cs. weight_of n)"
    by (rule sum_list_nonneg) (auto simp: weight_of_pos less_imp_le)
  then show ?case using weight_of_pos[of n] a by simp
qed

lemma combined_score_average:
  "cs \<noteq> [] \<Longrightarrow> combined_score cs = weighted_average cs"
  using sum_weights_pos[of cs] combined_fold[of weight_of cs 0 0]
  by (simp add: combined_score_def weighted_average_def weight_of_weights)

lemma hybrid_engines_distinct: "distinct (map fst (hybrid_engines p c t))"
  by (simp add: hybrid_engines_def)

lemma sorted_order_by_desc:
  "sorted_wrt (\<lambda>a b. key b \<le> key a) (order_by_desc key rows)"
  for key :: "'a \<Rightarrow> 'k::linordered_idom"
proof -
  have "sorted (map (\<lambda>r. - key r) (order_by_desc key rows))"
    unfolding order_by_desc_def by (rule sorted_sort_key)
  then show ?thesis by (simp add: sorted_map)
qed

lemma sorted_wrt_take: "sorted_wrt P xs \<Longrightarrow> sorted_wrt P (take n xs)"
  by (metis append_take_drop_id sorted_wrt_append)

lemma set_order_by_desc: "set (order_by_desc key rows) = set rows"
  by (simp add: order_by_desc_def)

lemma map_zip_upt_snd: "map snd (zip [0..<length xs] xs) = xs"
  by (simp add: map_snd_zip)

lemma map_zip_upt_fst: "map fst (zip [0..<length xs] xs) = [0..<length xs]"
  by (simp add: map_fst_zip)


text \<open>The list the combiner returns, read off its definition.\<close>

lemma hybrid_output:
  fixes engines max_results
  defines "ranked \<equiv> take max_results
     (order_by_desc (\<lambda>(score, e). score)
        (map (\<lambda>(product_id, e). (combined_score (h_scores e), e))
           (collect_recommendations engines max_results)))"
  shows "length (hybrid_get_recommendations engines max_results) = length ranked"
    and "map c_score (hybrid_get_recommendations engines max_results) = map fst ranked"
    and "map c_rank (hybrid_get_recommendations engines max_results) =
           map (\<lambda>i. int i + 1) [0..<length ranked]"
    and "map c_product (hybrid_get_recommendations engines max_results) =
           map (h_product \<circ> snd) ranked"
proof -
  have h: "hybrid_get_recommendations engines max_results =
     map (\<lambda>(idx, score, e).
                \<lparr> c_product = h_product e, c_score = score, c_rank = int idx + 1,
                  c_explanation = combine_explanations (h_explanations e) \<rparr>)
           (zip [0..<length ranked] ranked)"
    by (simp add: hybrid_get_recommendations_def Let_def ranked_def)
  show "length (hybrid_get_recommendations engines max_results) = length ranked"
    unfolding h by simp
  show "map c_score (hybrid_get_recommendations engines max_results) = map fst ranked"
    unfolding h by (rule nth_equalityI) (auto split: prod.splits)
  show "map c_rank (hybrid_get_recommendations engines max_results) =
           map (\<lambda>i. int i + 1) [0..<length ranked]"
    unfolding h by (rule nth_equalityI) (auto split: prod.splits)
  show "map c_product (hybrid_get_recommendations engines max_results) =
           map (h_product \<circ> snd) ranked"
    unfolding h by (rule nth_equalityI) (auto split: prod.splits)
qed

lemma ranks_from_one: "map (\<lambda>i. int i + 1) [0..<n] = map int [1..<n + 1]"
proof -
  have "map int [1..<n + 1] = map int (map Suc [0..<n])"
    by (simp only: map_Suc_upt) simp
  then show ?thesis by (simp add: o_def add.commute)
qed

text \<open>Every entry of the output comes from an entry of \<open>all_recommendations\<close>.\<close>

lemma hybrid_output_entry:
  assumes "r \<in> set (hybrid_get_recommendations engines max_results)"
  shows "\<exists>e. (p_id (c_product r), e) \<in> set (collect_recommendations engines max_results) \<and>
             c_score r = combined_score (h_scores e)"
proof -
  let ?all = "collect_recommendations engines max_results"
  let ?final = "order_by_desc (\<lambda>(score, e). score)
        (map (\<lambda>(product_id, e). (combined_score (h_scores e), e)) ?all)"
  let ?top = "take max_results ?final"
  from assms obtain idx score e where
    z: "(idx, score, e) \<in> set (zip [0..<length ?top] ?top)"
    and r: "r = \<lparr> c_product = h_product e, c_score = score, c_rank = int idx + 1,
                  c_explanation = combine_explanations (h_explanations e) \<rparr>"
    by (auto simp: hybrid_get_recommendations_def Let_def)
  from z have "(score, e) \<in> set ?top" by (rule set_zip_rightD)
  then have "(score, e) \<in> set ?final" by (rule in_set_takeD)
  then have "(score, e) \<in> set (map (\<lambda>(product_id, e). (combined_score (h_scores e), e)) ?all)"
    by (simp add: set_order_by_desc)
  then obtain k where m: "(k, e) \<in> set ?all" and s: "score = combined_score (h_scores e)"
    by auto
  from entries_ok_entry[OF entries_ok_collect m] have "p_id (h_product e) = k" by simp
  with m s r show ?thesis by auto
qed

text \<open>
  C3. For every product in the output of the combiner over its three engines, at least
  one engine contributed, and the combined score is the weighted average of the
  contributed scores with the weights 0.40, 0.35, 0.25 (0.1 for another name) divided
  by the sum of the weights of the contributing engines; a product that only the
  popularity engine proposed has exactly the popularity score; the output is in
  descending order of combined score and its ranks are 1, 2, ... without gaps.
\<close>

theorem hybrid_combined_scores:
  "(\<forall>r \<in> set (hybrid_get_recommendations (hybrid_engines popularity collaborative content) max_results).
      contributions (hybrid_engines popularity collaborative content) max_results
        (p_id (c_product r)) \<noteq> [] \<and>
      c_score r =
        weighted_average
          (contributions (hybrid_engines popularity collaborative content) max_results
             (p_id (c_product r))) \<and>
      (\<forall>s. contributions (hybrid_engines popularity collaborative content) max_results
              (p_id (c_product r)) = [(''popularity'', s)] \<longrightarrow> c_score r = s)) \<and>
   sorted_wrt (\<lambda>a b. c_score b \<le> c_score a)
     (hybrid_get_recommendations (hybrid_engines popularity collaborative content) max_results) \<and>
   map c_rank (hybrid_get_recommendations (hybrid_engines popularity collaborative content) max_results) =
     map int [1..<length (hybrid_get_recommendations
                            (hybrid_engines popularity collaborative content) max_results) + 1]"
proof (intro conjI ballI)
  let ?engines = "hybrid_engines popularity collaborative content"
  let ?out = "hybrid_get_recommendations ?engines max_results"
  fix r assume "r \<in> set ?out"
  from hybrid_output_entry[OF this] obtain e where
    m: "(p_id (c_product r), e) \<in> set (collect_recommendations ?engines max_results)"
    and s: "c_score r = combined_score (h_scores e)"
    by blast
  from entries_ok_entry[OF entries_ok_collect m]
  have "h_scores e = contributions ?engines max_results (p_id (c_product r))" and ne: "h_scores e \<noteq> []"
    by (simp_all add: scores_of_collect[OF hybrid_engines_distinct])
  then have c: "contributions ?engines max_results (p_id (c_product r)) = h_scores e" by simp
  show "contributions ?engines max_results (p_id (c_product r)) \<noteq> []"
    using c ne by simp
  show avg: "c_score r = weighted_average (contributions ?engines max_results (p_id (c_product r)))"
    using s c combined_score_average[OF ne] by simp
  show "\<forall>s. contributions ?engines max_results (p_id (c_product r)) = [(''popularity'', s)]
          \<longrightarrow> c_score r = s"
    using avg by (auto simp: weighted_average_def weight_of_def)
next
  let ?engines = "hybrid_engines popularity collaborative content"
  let ?top = "take max_results
     (order_by_desc (\<lambda>(score, e). score)
        (map (\<lambda>(product_id, e). (combined_score (h_scores e), e))
           (collect_recommendations ?engines max_results)))"
  have "sorted_wrt (\<lambda>a b. (case b of (score, e) \<Rightarrow> score) \<le> (case a of (score, e) \<Rightarrow> score)) ?top"
    by (intro sorted_wrt_take sorted_order_by_desc)
  then have "sorted_wrt (\<lambda>a b. b \<le> a) (map fst ?top)"
    by (simp add: sorted_wrt_map split_def)
  then have "sorted_wrt (\<lambda>a b. b \<le> a)
      (map c_score (hybrid_get_recommendations ?engines max_results))"
    by (simp only: hybrid_output(2))
  then show "sorted_wrt (\<lambda>a b. c_score b \<le> c_score a)
     (hybrid_get_recommendations ?engines max_results)"
    by (simp add: sorted_wrt_map)
next
  show "map c_rank (hybrid_get_recommendations (hybrid_engines popularity collaborative content) max_results) =
     map int [1..<length (hybrid_get_recommendations
                            (hybrid_engines popularity collaborative content) max_results) + 1]"
    by (simp only: hybrid_output(1,3) ranks_from_one)
qed


text \<open>
  With the sample engines the product 1 comes from popularity alone and keeps its score
  one half; the product 2 has (0.25 * 0.25 + 0.35 * 1) / 0.6 and is ranked first.
\<close>

lemma ex_hybrid_output:
  "map (\<lambda>r. (p_id (c_product r), c_score r, c_rank r)) (hybrid_get_recommendations ex_engines 10) =
     [(2, 11 / 16, 1), (1, 1 / 2, 2)]"
  by (simp add: hybrid_get_recommendations_def collect_recommendations_def ex_engines_def
      hybrid_engines_def add_recommendation_def combined_score_def order_by_desc_def
      dict_get_def weights_def ex_product_def ex_product2_def Let_def)

theorem hybrid_combined_scores_witness:
  "\<exists>r \<in> set (hybrid_get_recommendations ex_engines 10).
     p_id (c_product r) = 1 \<and> c_score r = 1 / 2 \<and> c_rank r = 2 \<and>
     contributions ex_engines 10 1 = [(''popularity'', 1 / 2)]"
proof -
  have c: "contributions ex_engines 10 1 = [(''popularity'', 1 / 2)]"
    by (simp add: contributions_def ex_engines_def hybrid_engines_def engine_score_def
        ex_product_def ex_product2_def)
  have "(1, 1 / 2, 2) \<in> set (map (\<lambda>r. (p_id (c_product r), c_score r, c_rank r))
          (hybrid_get_recommendations ex_engines 10))"
    by (simp only: ex_hybrid_output) simp
  then obtain r where r: "r \<in> set (hybrid_get_recommendations ex_engines 10)"
    and p: "p_id (c_product r) = 1" and k: "c_rank r = 2"
    by auto
  from hybrid_combined_scores[of "\<lambda>n. Inr [\<lparr> c_product = ex_product, c_score = 1 / 2, c_rank = 1,
                    c_explanation = ''Popular item with 50 interactions'' \<rparr>,
                  \<lparr> c_product = ex_product2, c_score = 1 / 4, c_rank = 2,
                    c_explanation = ''Popular item with 50 interactions'' \<rparr>]"
       "\<lambda>n. Inl AttributeError"
       "\<lambda>n. Inr [\<lparr> c_product = ex_product2, c_score = 1, c_rank = 1,
                    c_explanation = ''Matches your interest in books'' \<rparr>]" 10]
  have "\<forall>r \<in> set (hybrid_get_recommendations ex_engines 10).
      \<forall>s. contributions ex_engines 10 (p_id (c_product r)) = [(''popularity'', s)] \<longrightarrow> c_score r = s"
    unfolding ex_engines_def by blast
  with r have "\<forall>s. contributions ex_engines 10 (p_id (c_product r)) = [(''popularity'', s)]
      \<longrightarrow> c_score r = s" by blast
  then have "contributions ex_engines 10 1 = [(''popularity'', 1 / 2)] \<longrightarrow> c_score r = 1 / 2"
    unfolding p by (rule spec)
  then have "c_score r = 1 / 2" using c by (rule mp)
  with r p k c show ?thesis by blast
qed

subsection \<open>Trending: grouping and ordering\<close>

lemma group_rows_key_mem:
  "(k, g) \<in> set (group_rows key xs) \<Longrightarrow> k \<in> key ` set xs"
  by (induction key xs arbitrary: k g rule: group_rows.induct) (auto split: if_splits)

lemma group_rows_keys: "fst ` set (group_rows key xs) = key ` set xs"
proof (induction key xs rule: group_rows.induct)
  case (1 key)
  then show ?case by simp
next
  case (2 key x xs)
  have "key ` set (x # xs) = insert (key x) (key ` set (filter (\<lambda>y. key y \<noteq> key x) xs))"
    by auto
  with "2.IH" show ?case by simp
qed

lemma group_rows_distinct: "distinct (map fst (group_rows key xs))"
proof (induction key xs rule: group_rows.induct)
  case (1 key)
  then show ?case by simp
next
  case (2 key x xs)
  have "key x \<notin> fst ` set (group_rows key (filter (\<lambda>y. key y \<noteq> key x) xs))"
    unfolding group_rows_keys by auto
  with "2.IH" show ?case by simp
qed

lemma group_rows_group:
  "(k, g) \<in> set (group_rows key xs) \<Longrightarrow> g = filter (\<lambda>x. key x = k) xs"
proof (induction key xs rule: group_rows.induct)
  case (1 key)
  then show ?case by simp
next
  case (2 key x xs)
  from "2.prems" consider
    (here) "k = key x" "g = x # filter (\<lambda>y. key y = key x) xs"
    | (later) "(k, g) \<in> set (group_rows key (filter (\<lambda>y. key y \<noteq> key x) xs))"
    by auto
  then show ?case
  proof cases
    case here
    then show ?thesis by simp
  next
    case later
    from "2.IH"[OF later] have g: "g = filter (\<lambda>y. key y = k) (filter (\<lambda>y. key y \<noteq> key x) xs)" .
    from group_rows_key_mem[OF later] have "k \<noteq> key x" by auto
    with g show ?thesis by (auto intro: filter_cong)
  qed
qed

lemma window_rows_filter:
  "map snd (filter (\<lambda>(p, i). p = pid \<and> Q i) (window_rows now d store tbl)) =
     filter (\<lambda>i. in_window now d store pid i \<and> Q i) tbl"
  by (induction tbl) (auto simp: window_rows_def in_window_def split: option.splits)

lemma window_rows_count:
  "length (filter (\<lambda>(p, i). Q i) (filter (\<lambda>x. fst x = pid) (window_rows now d store tbl))) =
     length (filter (\<lambda>i. in_window now d store pid i \<and> Q i) tbl)"
proof -
  have "filter (\<lambda>(p, i). Q i) (filter (\<lambda>x. fst x = pid) (window_rows now d store tbl)) =
          filter (\<lambda>(p, i). p = pid \<and> Q i) (window_rows now d store tbl)"
    by (auto simp: split_def intro: filter_cong)
  then have "length (filter (\<lambda>(p, i). Q i) (filter (\<lambda>x. fst x = pid) (window_rows now d store tbl))) =
      length (map snd (filter (\<lambda>(p, i). p = pid \<and> Q i) (window_rows now d store tbl)))"
    by simp
  then show ?thesis by (simp only: window_rows_filter)
qed

lemma annotate_products:
  "map item_product (annotate now d store tbl) =
     map fst (group_rows fst (window_rows now d store tbl))"
  by (simp add: annotate_def split_def o_def)

lemma annotate_counts:
  assumes "item \<in> set (annotate now d store tbl)"
  shows "item_interaction_count item = interaction_count now d store tbl (item_product item) \<and>
         item_purchase_count item = purchase_count_in now d store tbl (item_product item) \<and>
         item_velocity item = velocity_count now d store tbl (item_product item)"
proof -
  from assms obtain pid g where
    m: "(pid, g) \<in> set (group_rows fst (window_rows now d store tbl))"
    and i: "item = \<lparr> item_product = pid,
                    item_interaction_count = int (length g),
                    item_purchase_count = int (length (filter (\<lambda>(p, i). is_purchase i) g)),
                    item_velocity =
                      int (length (filter (\<lambda>(p, i). now - d div 2 \<le> i_created_at i) g)) \<rparr>"
    by (auto simp: annotate_def)
  from group_rows_group[OF m] have g: "g = filter (\<lambda>x. fst x = pid) (window_rows now d store tbl)" .
  have "length g = length (filter (\<lambda>(p, i). True) g)" by simp
  also have "\<dots> = length (filter (\<lambda>i. in_window now d store pid i \<and> True) tbl)"
    unfolding g by (rule window_rows_count)
  finally have 1: "int (length g) = interaction_count now d store tbl pid"
    by (simp add: interaction_count_def)
  have 2: "int (length (filter (\<lambda>(p, i). is_purchase i) g)) = purchase_count_in now d store tbl pid"
    unfolding g purchase_count_in_def by (simp only: window_rows_count)
  have 3: "int (length (filter (\<lambda>(p, i). now - d div 2 \<le> i_created_at i) g)) =
             velocity_count now d store tbl pid"
    unfolding g velocity_count_def by (simp only: window_rows_count)
  show ?thesis using i 1 2 3 by simp
qed

lemma set_trending_data:
  "set (trending_data now d store tbl) \<subseteq> set (annotate now d store tbl)"
  unfolding trending_data_def
  by (metis set_order_by_desc set_take_subset)

lemma distinct_trending_data: "distinct (map item_product (trending_data now d store tbl))"
proof -
  have "distinct (map item_product (annotate now d store tbl))"
    by (simp only: annotate_products group_rows_distinct)
  then have "distinct (map item_product (order_by_desc item_interaction_count (annotate now d store tbl)))"
    unfolding order_by_desc_def by (metis distinct_map distinct_sort set_sort)
  then show ?thesis
    unfolding trending_data_def by (simp add: take_map[symmetric] distinct_take del: take_map)
qed


subsection \<open>Writing the trending rows\<close>

lemma distinct_key_filter:
  "distinct (map f xs) \<Longrightarrow> length (filter (\<lambda>x. f x = k) xs) \<le> 1"
proof (induction xs)
  case Nil
  then show ?case by simp
next
  case (Cons x xs)
  show ?case
  proof (cases "f x = k")
    case True
    from Cons.prems have "f x \<notin> f ` set xs" by simp
    with True have "\<forall>y \<in> set xs. f y \<noteq> k" by blast
    then have "filter (\<lambda>x. f x = k) xs = []" by (simp add: filter_empty_conv)
    with True show ?thesis by simp
  next
    case False
    with Cons show ?thesis by simp
  qed
qed

lemma update_row_same_key:
  assumes "distinct (map ident tbl)" "old \<in> set tbl" "f r = f old"
  shows "map f (update_row (\<lambda>x. ident x = ident old) r tbl) = map f tbl"
proof -
  have "\<And>x. x \<in> set tbl \<Longrightarrow> ident x = ident old \<Longrightarrow> f r = f x"
    using same_ident[OF assms(1,2)] assms(3) by metis
  then show ?thesis by (simp add: update_row_def)
qed

lemma overwrite_views:
  assumes "A = insert r (B - {old})" "old \<in> B" "inj_on (\<lambda>x. fst (view x)) B"
    and "fst (view r) = fst (view old)"
  shows "view ` A = {v \<in> view ` B. fst v \<noteq> fst (view old)} \<union> {view r}"
proof -
  have "\<And>x. x \<in> B \<Longrightarrow> fst (view x) = fst (view old) \<longleftrightarrow> x = old"
    using assms(2,3) by (auto dest: inj_onD)
  then have "{v \<in> view ` B. fst v \<noteq> fst (view old)} = view ` (B - {old})"
    by auto
  then show ?thesis using assms(1) by auto
qed

lemma update_or_create_step:
  assumes ok: "trending_ok tbl"
  shows "\<exists>tbl'. update_or_create now store pid w sc ve rk tbl = Inr tbl' \<and> trending_ok tbl' \<and>
     trending_view ` set tbl' =
       {v \<in> trending_view ` set tbl. fst v \<noteq> (store, pid, w)} \<union> {((store, pid, w), sc, ve, rk)}"
proof -
  let ?k = "(store, pid, w)"
  let ?P = "\<lambda>r. t_store r = store \<and> t_product r = pid \<and> t_calculation_window r = w"
  have P: "\<And>r. ?P r \<longleftrightarrow> (fst \<circ> trending_view) r = ?k"
    by (auto simp: trending_view_def)
  from ok have d: "distinct (map t_id tbl)" and dk: "distinct (map (fst \<circ> trending_view) tbl)"
    by (simp_all add: trending_ok_def)
  have le: "length (filter ?P tbl) \<le> 1"
    unfolding P by (rule distinct_key_filter[OF dk])
  show ?thesis
  proof (cases "filter ?P tbl")
    case Nil
    let ?r = "\<lparr> t_id = Suc (fold max (map t_id tbl) 0), t_store = store,
                 t_product = pid, t_score = sc, t_velocity = ve,
                 t_rank = rk, t_calculation_window = w, t_calculated_at = now \<rparr>"
    have e: "update_or_create now store pid w sc ve rk tbl = Inr (tbl @ [?r])"
      using Nil by (simp add: update_or_create_def get_by_def)
    have none: "\<forall>x \<in> set tbl. (fst \<circ> trending_view) x \<noteq> ?k"
      using Nil unfolding P[symmetric] by (simp add: filter_empty_conv)
    have fresh: "t_id ?r \<notin> set (map t_id tbl)"
    proof
      assume "t_id ?r \<in> set (map t_id tbl)"
      then obtain x where "x \<in> set tbl" "t_id x = t_id ?r" by auto
      with fresh_ident[of x tbl t_id] show False by simp
    qed
    have kr: "(fst \<circ> trending_view) ?r = ?k" by (simp add: trending_view_def)
    have "(fst \<circ> trending_view) ?r \<notin> set (map (fst \<circ> trending_view) tbl)"
      unfolding kr using none by auto
    with d dk fresh have ok': "trending_ok (tbl @ [?r])"
      by (simp add: trending_ok_def)
    have "{v \<in> trending_view ` set tbl. fst v \<noteq> ?k} = trending_view ` set tbl"
      using none by auto
    moreover have "trending_view ?r = (?k, sc, ve, rk)" by (simp add: trending_view_def)
    ultimately have "trending_view ` set (tbl @ [?r]) =
       {v \<in> trending_view ` set tbl. fst v \<noteq> ?k} \<union> {(?k, sc, ve, rk)}"
      by simp
    with e ok' show ?thesis by blast
  next
    case (Cons old rest)
    with le have f: "filter ?P tbl = [old]" by simp
    have "old \<in> set (filter ?P tbl)" using f by simp
    then have mem: "old \<in> set tbl" and Pold: "?P old" by simp_all
    let ?r = "old\<lparr> t_score := sc, t_velocity := ve, t_rank := rk \<rparr>"
    let ?t = "update_row (\<lambda>x. t_id x = t_id old) ?r tbl"
    have e: "update_or_create now store pid w sc ve rk tbl = Inr ?t"
      using get_by_one[OF f] by (simp add: update_or_create_def)
    have kr: "(fst \<circ> trending_view) ?r = (fst \<circ> trending_view) old"
      by (simp add: trending_view_def)
    have ko: "fst (trending_view old) = ?k" using Pold by (simp add: trending_view_def)
    have "map t_id ?t = map t_id tbl"
      using update_row_ids[of t_id ?r "t_id old" tbl] by simp
    moreover have "map (fst \<circ> trending_view) ?t = map (fst \<circ> trending_view) tbl"
      by (rule update_row_same_key[OF d mem kr])
    ultimately have ok': "trending_ok ?t" using d dk by (simp add: trending_ok_def)
    have s: "set ?t = insert ?r (set tbl - {old})"
      by (rule set_update_row[OF d mem])
    have inj: "inj_on (\<lambda>x. fst (trending_view x)) (set tbl)"
      using dk by (simp add: distinct_map o_def)
    have "trending_view ` set ?t =
        {v \<in> trending_view ` set tbl. fst v \<noteq> fst (trending_view old)} \<union> {trending_view ?r}"
      using kr by (intro overwrite_views[OF s mem inj]) simp
    moreover have "trending_view ?r = (?k, sc, ve, rk)"
      using Pold by (simp add: trending_view_def)
    ultimately have "trending_view ` set ?t =
       {v \<in> trending_view ` set tbl. fst v \<noteq> ?k} \<union> {(?k, sc, ve, rk)}"
      using ko by simp
    with e ok' show ?thesis by blast
  qed
qed

text \<open>Two rounds of overwriting under disjoint keys are one round.\<close>

lemma two_rounds:
  assumes "V1 = {v \<in> V0. fst v \<notin> fst ` W1} \<union> W1"
    and "V2 = {v \<in> V1. fst v \<notin> fst ` W2} \<union> W2"
    and "fst ` W1 \<inter> fst ` W2 = {}"
  shows "V2 = {v \<in> V0. fst v \<notin> fst ` (W1 \<union> W2)} \<union> (W1 \<union> W2)"
proof -
  have "\<And>v. v \<in> W1 \<Longrightarrow> fst v \<notin> fst ` W2" using assms(3) by blast
  then show ?thesis unfolding assms(1,2) by (auto simp: image_Un)
qed

lemma get_product:
  assumes "distinct (map p_id prods)"
  shows "(pid \<notin> p_id ` set prods \<longrightarrow> get_by (\<lambda>p. p_id p = pid) prods = Inl DoesNotExist) \<and>
         (pid \<in> p_id ` set prods \<longrightarrow> (\<exists>p. get_by (\<lambda>p. p_id p = pid) prods = Inr p \<and> p_id p = pid))"
proof (intro conjI impI)
  assume "pid \<notin> p_id ` set prods"
  then show "get_by (\<lambda>p. p_id p = pid) prods = Inl DoesNotExist"
    by (intro get_by_none) auto
next
  assume "pid \<in> p_id ` set prods"
  then have ne: "filter (\<lambda>p. p_id p = pid) prods \<noteq> []"
    by (auto simp: filter_empty_conv)
  from distinct_key_filter[OF assms, of pid] ne
  obtain p where f: "filter (\<lambda>p. p_id p = pid) prods = [p]"
    by (cases "filter (\<lambda>p. p_id p = pid) prods") auto
  then have "p \<in> set (filter (\<lambda>p. p_id p = pid) prods)" by simp
  then have "p_id p = pid" by simp
  with get_by_one[OF f] show "\<exists>p. get_by (\<lambda>p. p_id p = pid) prods = Inr p \<and> p_id p = pid"
    by blast
qed

lemma store_trending_views:
  assumes "trending_ok tbl" "distinct (map (item_product \<circ> snd) items)"
    and prods: "distinct (map p_id prods)"
  shows "\<exists>tbl'. store_trending now store w prods items tbl = (None, tbl') \<and> trending_ok tbl' \<and>
     trending_view ` set tbl' =
       {v \<in> trending_view ` set tbl. fst v \<notin> fst ` set (entries_written store w prods items)} \<union>
       set (entries_written store w prods items)"
  using assms(1,2)
proof (induction items arbitrary: tbl)
  case Nil
  then show ?case by (simp add: entries_written_def)
next
  case (Cons a items)
  obtain idx item where a: "a = (idx, item)" by (cases a)
  from Cons.prems(2) a have d: "distinct (map (item_product \<circ> snd) items)"
    and nin: "item_product item \<notin> (item_product \<circ> snd) ` set items"
    by (simp_all add: o_def)
  have fresh: "\<forall>x \<in> set items. item_product (snd x) \<noteq> item_product item"
  proof (intro ballI notI)
    fix x assume "x \<in> set items" "item_product (snd x) = item_product item"
    then have "item_product item \<in> (item_product \<circ> snd) ` set items"
      by (metis comp_apply imageI)
    with nin show False ..
  qed
  show ?case
  proof (cases "item_product item \<in> p_id ` set prods")
    case False
    with get_product[OF prods, of "item_product item"]
    have g: "get_by (\<lambda>p. p_id p = item_product item) prods = Inl DoesNotExist" by simp
    have w: "entries_written store w prods (a # items) = entries_written store w prods items"
      using False a by (simp add: entries_written_def)
    have step: "store_trending now store w prods (a # items) tbl =
                  store_trending now store w prods items tbl"
      using g a by simp
    from Cons.IH[OF Cons.prems(1) d] show ?thesis
      by (simp only: w step)
  next
    case True
    with get_product[OF prods, of "item_product item"] obtain p where
      g: "get_by (\<lambda>p. p_id p = item_product item) prods = Inr p" and p: "p_id p = item_product item"
      by auto
    let ?e = "((store, item_product item, w), trending_score item, velocity item, int idx + 1)"
    from update_or_create_step[OF Cons.prems(1), of now store "item_product item" w
        "trending_score item" "velocity item" "int idx + 1"]
    obtain tbl1 where
      u: "update_or_create now store (item_product item) w (trending_score item) (velocity item)
            (int idx + 1) tbl = Inr tbl1"
      and ok1: "trending_ok tbl1"
      and v1: "trending_view ` set tbl1 =
          {v \<in> trending_view ` set tbl. fst v \<notin> fst ` {?e}} \<union> {?e}"
      by auto
    from Cons.IH[OF ok1 d] obtain tbl' where
      s: "store_trending now store w prods items tbl1 = (None, tbl')"
      and ok': "trending_ok tbl'"
      and v2: "trending_view ` set tbl' =
         {v \<in> trending_view ` set tbl1. fst v \<notin> fst ` set (entries_written store w prods items)} \<union>
         set (entries_written store w prods items)"
      by blast
    have w: "set (entries_written store w prods (a # items)) =
               {?e} \<union> set (entries_written store w prods items)"
      using True a by (simp add: entries_written_def)
    have disj: "fst ` {?e} \<inter> fst ` set (entries_written store w prods items) = {}"
      using fresh by (auto simp: entries_written_def)
    have "trending_view ` set tbl' =
        {v \<in> trending_view ` set tbl. fst v \<notin> fst ` ({?e} \<union> set (entries_written store w prods items))} \<union>
        ({?e} \<union> set (entries_written store w prods items))"
      by (rule two_rounds[OF v1 v2 disj])
    then have "trending_view ` set tbl' =
        {v \<in> trending_view ` set tbl. fst v \<notin> fst ` set (entries_written store w prods (a # items))} \<union>
        set (entries_written store w prods (a # items))"
      by (simp only: w)
    moreover have "store_trending now store w prods (a # items) tbl = (None, tbl')"
      using g p u s a by simp
    ultimately show ?thesis using ok' by blast
  qed
qed


lemma calculate_window_views:
  assumes "trending_ok tr" "distinct (map p_id prods)"
  shows "\<exists>tr'. calculate_window now store prods tbl w tr = (None, tr') \<and> trending_ok tr' \<and>
     trending_view ` set tr' =
       {v \<in> trending_view ` set tr. fst v \<notin> fst ` set (window_entries now store prods tbl w)} \<union>
       set (window_entries now store prods tbl w)"
proof -
  let ?data = "trending_data now (snd w) store tbl"
  have "map (item_product \<circ> snd) (zip [0..<length ?data] ?data) = map item_product ?data"
    by (simp add: map_zip_upt_snd flip: map_map)
  then have "distinct (map (item_product \<circ> snd) (zip [0..<length ?data] ?data))"
    by (simp only: distinct_trending_data)
  from store_trending_views[OF assms(1) this assms(2), of now store "fst w"]
  show ?thesis by (simp add: calculate_window_def window_entries_def Let_def)
qed

text \<open>The entries of all the windows of a run.\<close>

lemma window_entries_keys:
  "e \<in> set (window_entries now store prods tbl w) \<Longrightarrow> snd (snd (fst e)) = fst w"
  by (auto simp: window_entries_def entries_written_def Let_def)

lemma calculate_windows_views:
  assumes "trending_ok tr" "distinct (map fst ws)" "distinct (map p_id prods)"
  shows "\<exists>tr'. calculate_windows now store prods tbl ws tr = (None, tr') \<and> trending_ok tr' \<and>
     trending_view ` set tr' =
       {v \<in> trending_view ` set tr.
          fst v \<notin> fst ` (\<Union>w \<in> set ws. set (window_entries now store prods tbl w))} \<union>
       (\<Union>w \<in> set ws. set (window_entries now store prods tbl w))"
  using assms(1,2)
proof (induction ws arbitrary: tr)
  case Nil
  then show ?case by simp
next
  case (Cons w ws)
  let ?W1 = "set (window_entries now store prods tbl w)"
  let ?W2 = "\<Union>w \<in> set ws. set (window_entries now store prods tbl w)"
  from calculate_window_views[OF Cons.prems(1) assms(3), of now store tbl w] obtain tr1 where
    c1: "calculate_window now store prods tbl w tr = (None, tr1)" and ok1: "trending_ok tr1"
    and v1: "trending_view ` set tr1 = {v \<in> trending_view ` set tr. fst v \<notin> fst ` ?W1} \<union> ?W1"
    by blast
  from Cons.prems(2) have d: "distinct (map fst ws)" and nin: "fst w \<notin> fst ` set ws" by simp_all
  from Cons.IH[OF ok1 d] obtain tr' where
    c2: "calculate_windows now store prods tbl ws tr1 = (None, tr')" and ok': "trending_ok tr'"
    and v2: "trending_view ` set tr' = {v \<in> trending_view ` set tr1. fst v \<notin> fst ` ?W2} \<union> ?W2"
    by blast
  have disj: "fst ` ?W1 \<inter> fst ` ?W2 = {}"
  proof (rule ccontr)
    assume "fst ` ?W1 \<inter> fst ` ?W2 \<noteq> {}"
    then obtain k where k1: "k \<in> fst ` ?W1" and k2: "k \<in> fst ` ?W2" by blast
    from k1 obtain e1 where e1: "e1 \<in> ?W1" and f1: "fst e1 = k" by blast
    from k2 obtain e2 where "e2 \<in> ?W2" and f2: "fst e2 = k" by blast
    then obtain w2 where w2: "w2 \<in> set ws"
      and e2: "e2 \<in> set (window_entries now store prods tbl w2)" by blast
    from f1 f2 have eq: "fst e1 = fst e2" by simp
    from window_entries_keys[OF e1] window_entries_keys[OF e2] eq have "fst w = fst w2" by simp
    with w2 nin show False by auto
  qed
  have "trending_view ` set tr' =
      {v \<in> trending_view ` set tr. fst v \<notin> fst ` (?W1 \<union> ?W2)} \<union> (?W1 \<union> ?W2)"
    by (rule two_rounds[OF v1 v2 disj])
  moreover have "(\<Union>w \<in> set (w # ws). set (window_entries now store prods tbl w)) = ?W1 \<union> ?W2"
    by simp
  moreover have "calculate_windows now store prods tbl (w # ws) tr = (None, tr')"
    using c1 c2 by simp
  ultimately show ?case using ok' by (simp only:) blast
qed

lemma windows_distinct: "distinct (map fst windows)"
  by (simp add: windows_def)

text \<open>A whole run for a store that exists.\<close>

lemma calculate_trending_products_views:
  assumes "store_id \<in> set (stores db)" "distinct (stores db)"
    and "distinct (map p_id (catalog db))" "trending_ok (trending_products db)"
  shows "\<exists>tr'. calculate_trending_products now db store_id =
             (Calculated store_id, db\<lparr> trending_products := tr' \<rparr>) \<and>
     trending_ok tr' \<and>
     trending_view ` set tr' =
       {v \<in> trending_view ` set (trending_products db).
          fst v \<notin> fst ` (\<Union>w \<in> set windows.
                             set (window_entries now store_id (catalog db) (events db) w))} \<union>
       (\<Union>w \<in> set windows. set (window_entries now store_id (catalog db) (events db) w))"
proof -
  have ne: "filter (\<lambda>s. s = store_id) (stores db) \<noteq> []"
    using assms(1) by (auto simp: filter_empty_conv)
  from distinct_key_filter[of "\<lambda>s. s" "stores db" store_id] assms(2)
  have "length (filter (\<lambda>s. s = store_id) (stores db)) \<le> 1" by simp
  with ne obtain s where f: "filter (\<lambda>s. s = store_id) (stores db) = [s]"
    by (cases "filter (\<lambda>s. s = store_id) (stores db)") auto
  then have "s \<in> set (filter (\<lambda>s. s = store_id) (stores db))" by simp
  then have s: "s = store_id" by simp
  have g: "get_by (\<lambda>s. s = store_id) (stores db) = Inr store_id"
    using get_by_one[OF f] s by simp
  from calculate_windows_views[OF assms(4) windows_distinct assms(3), of now store_id "events db"]
  obtain tr' where
    c: "calculate_windows now store_id (catalog db) (events db) windows (trending_products db) = (None, tr')"
    and rest: "trending_ok tr' \<and>
     trending_view ` set tr' =
       {v \<in> trending_view ` set (trending_products db).
          fst v \<notin> fst ` (\<Union>w \<in> set windows.
                             set (window_entries now store_id (catalog db) (events db) w))} \<union>
       (\<Union>w \<in> set windows. set (window_entries now store_id (catalog db) (events db) w))"
    by blast
  have "calculate_trending_products now db store_id =
             (Calculated store_id, db\<lparr> trending_products := tr' \<rparr>)"
    by (simp add: calculate_trending_products_def g c)
  with rest show ?thesis by blast
qed

subsection \<open>C5: the score and the velocity of a trending entry\<close>

lemma velocity_le_interactions:
  "velocity_count now d store tbl pid \<le> interaction_count now d store tbl pid"
proof -
  have "filter (\<lambda>i. in_window now d store pid i \<and> now - d div 2 \<le> i_created_at i) tbl =
          filter (\<lambda>i. now - d div 2 \<le> i_created_at i) (filter (in_window now d store pid) tbl)"
    by (simp add: conj_commute)
  then show ?thesis
    unfolding velocity_count_def interaction_count_def by (simp only: of_nat_le_iff length_filter_le)
qed

lemma interaction_count_nonneg: "0 \<le> interaction_count now d store tbl pid"
  by (simp add: interaction_count_def)

lemma velocity_count_nonneg: "0 \<le> velocity_count now d store tbl pid"
  by (simp add: velocity_count_def)

lemma item_values:
  assumes "item \<in> set (trending_data now d store tbl)"
  shows "trending_score item =
           real_of_int (interaction_count now d store tbl (item_product item) +
                        5 * purchase_count_in now d store tbl (item_product item) +
                        2 * velocity_count now d store tbl (item_product item)) \<and>
         velocity item =
           (if interaction_count now d store tbl (item_product item) = 0 then 0
            else real_of_int (velocity_count now d store tbl (item_product item)) /
                 real_of_int (interaction_count now d store tbl (item_product item)))"
proof -
  let ?ic = "interaction_count now d store tbl (item_product item)"
  let ?vc = "velocity_count now d store tbl (item_product item)"
  from assms set_trending_data have "item \<in> set (annotate now d store tbl)" by blast
  from annotate_counts[OF this] have c: "item_interaction_count item = ?ic"
    "item_purchase_count item = purchase_count_in now d store tbl (item_product item)"
    "item_velocity item = ?vc" by simp_all
  have s: "trending_score item =
           real_of_int (?ic + 5 * purchase_count_in now d store tbl (item_product item) + 2 * ?vc)"
    by (simp add: trending_score_def c)
  have v: "velocity item = (if ?ic = 0 then 0 else real_of_int ?vc / real_of_int ?ic)"
  proof (cases "?ic = 0")
    case True
    with velocity_le_interactions[of now d store tbl "item_product item"]
      velocity_count_nonneg[of now d store tbl "item_product item"]
    have "?vc = 0" by simp
    with True show ?thesis by (simp add: velocity_def c)
  next
    case False
    with interaction_count_nonneg[of now d store tbl "item_product item"]
    have "max ?ic 1 = ?ic" by simp
    with False show ?thesis by (simp add: velocity_def c)
  qed
  from s v show ?thesis by simp
qed

lemma window_entry_item:
  assumes "e \<in> set (window_entries now store prods tbl w)"
  shows "\<exists>idx item. idx < length (trending_data now (snd w) store tbl) \<and>
           trending_data now (snd w) store tbl ! idx = item \<and>
           item_product item \<in> p_id ` set prods \<and>
           e = ((store, item_product item, fst w), trending_score item, velocity item, int idx + 1)"
proof -
  let ?data = "trending_data now (snd w) store tbl"
  from assms obtain idx item where
    z: "(idx, item) \<in> set (zip [0..<length ?data] ?data)"
    and p: "item_product item \<in> p_id ` set prods"
    and e: "e = ((store, item_product item, fst w), trending_score item, velocity item, int idx + 1)"
    by (auto simp: window_entries_def entries_written_def Let_def)
  from z obtain n where n: "n < length ?data" "[0..<length ?data] ! n = idx" "?data ! n = item"
    by (auto simp: in_set_zip)
  then have "idx = n" by simp
  with n have "idx < length ?data" "?data ! idx = item" by simp_all
  with p e show ?thesis by blast
qed

lemma item_window_entry:
  assumes "idx < length (trending_data now (snd w) store tbl)"
    and "item_product (trending_data now (snd w) store tbl ! idx) \<in> p_id ` set prods"
  shows "((store, item_product (trending_data now (snd w) store tbl ! idx), fst w),
          trending_score (trending_data now (snd w) store tbl ! idx),
          velocity (trending_data now (snd w) store tbl ! idx), int idx + 1)
         \<in> set (window_entries now store prods tbl w)"
proof -
  let ?data = "trending_data now (snd w) store tbl"
  have "(idx, ?data ! idx) \<in> set (zip [0..<length ?data] ?data)"
    using assms(1) by (auto simp: in_set_zip intro!: exI[of _ idx])
  with assms(2) show ?thesis
    by (force simp: window_entries_def entries_written_def Let_def)
qed

lemma window_of_name:
  "w' \<in> set windows \<Longrightarrow> (w, d) \<in> set windows \<Longrightarrow> fst w' = w \<Longrightarrow> w' = (w, d)"
  using windows_distinct by (metis eq_key_imp_eq_value prod.collapse)

text \<open>
  C5. A run for a store that exists, on consistent tables, ends without exception.
  For each of the four windows and each product among the items of the window whose
  product row exists, the run leaves a TrendingEntry under (store, product, window), and
  every row under that key has score = interaction_count + 5 * purchase_count +
  2 * velocity_count and velocity = velocity_count / interaction_count, 0 when the
  interaction count is 0. The three counts are taken over the interactions of the store
  with that product since the start of the window; velocity_count counts those in the
  most recent half of the window.
\<close>

theorem trending_score_and_velocity:
  assumes "store_id \<in> set (stores db)" "distinct (stores db)"
    and "distinct (map p_id (catalog db))" "trending_ok (trending_products db)"
    and w: "(w, d) \<in> set windows"
    and item: "item \<in> set (trending_data now d store_id (events db))"
    and ex: "item_product item \<in> p_id ` set (catalog db)"
  shows "\<exists>db'. calculate_trending_products now db store_id = (Calculated store_id, db') \<and>
     (\<exists>r \<in> set (trending_products db').
        t_store r = store_id \<and> t_product r = item_product item \<and> t_calculation_window r = w) \<and>
     (\<forall>r \<in> set (trending_products db').
        t_store r = store_id \<and> t_product r = item_product item \<and> t_calculation_window r = w \<longrightarrow>
        t_score r =
          real_of_int (interaction_count now d store_id (events db) (item_product item) +
                       5 * purchase_count_in now d store_id (events db) (item_product item) +
                       2 * velocity_count now d store_id (events db) (item_product item)) \<and>
        t_velocity r =
          (if interaction_count now d store_id (events db) (item_product item) = 0 then 0
           else real_of_int (velocity_count now d store_id (events db) (item_product item)) /
                real_of_int (interaction_count now d store_id (events db) (item_product item))))"
proof -
  let ?W = "\<Union>w \<in> set windows. set (window_entries now store_id (catalog db) (events db) w)"
  let ?k = "(store_id, item_product item, w)"
  from calculate_trending_products_views[OF assms(1-4), of now] obtain tr' where
    run: "calculate_trending_products now db store_id =
             (Calculated store_id, db\<lparr> trending_products := tr' \<rparr>)"
    and v: "trending_view ` set tr' =
       {v \<in> trending_view ` set (trending_products db). fst v \<notin> fst ` ?W} \<union> ?W"
    by blast
  from item obtain idx where idx: "idx < length (trending_data now d store_id (events db))"
    and it: "trending_data now d store_id (events db) ! idx = item"
    by (auto simp: in_set_conv_nth)
  from item_window_entry[of idx now "(w, d)" store_id "events db" "catalog db"] idx it ex
  have "(?k, trending_score item, velocity item, int idx + 1)
          \<in> set (window_entries now store_id (catalog db) (events db) (w, d))"
    by simp
  with w have inW: "(?k, trending_score item, velocity item, int idx + 1) \<in> ?W" by blast
  then have "(?k, trending_score item, velocity item, int idx + 1) \<in> trending_view ` set tr'"
    unfolding v by blast
  then obtain r0 where r0: "r0 \<in> set tr'"
    and vr0: "trending_view r0 = (?k, trending_score item, velocity item, int idx + 1)"
    by auto
  have first: "\<exists>r \<in> set tr'.
        t_store r = store_id \<and> t_product r = item_product item \<and> t_calculation_window r = w"
    using r0 vr0 by (auto simp: trending_view_def)
  have second: "\<forall>r \<in> set tr'.
        t_store r = store_id \<and> t_product r = item_product item \<and> t_calculation_window r = w \<longrightarrow>
        t_score r =
          real_of_int (interaction_count now d store_id (events db) (item_product item) +
                       5 * purchase_count_in now d store_id (events db) (item_product item) +
                       2 * velocity_count now d store_id (events db) (item_product item)) \<and>
        t_velocity r =
          (if interaction_count now d store_id (events db) (item_product item) = 0 then 0
           else real_of_int (velocity_count now d store_id (events db) (item_product item)) /
                real_of_int (interaction_count now d store_id (events db) (item_product item)))"
  proof (intro ballI impI)
    fix r assume r: "r \<in> set tr'"
      and key: "t_store r = store_id \<and> t_product r = item_product item \<and> t_calculation_window r = w"
    then have kr: "fst (trending_view r) = ?k" by (simp add: trending_view_def)
    have "?k \<in> fst ` ?W" using inW by force
    with kr have "fst (trending_view r) \<in> fst ` ?W" by simp
    moreover have "trending_view r \<in> trending_view ` set tr'" using r by simp
    ultimately have "trending_view r \<in> ?W" unfolding v by blast
    then obtain w' where w': "w' \<in> set windows"
      and e: "trending_view r \<in> set (window_entries now store_id (catalog db) (events db) w')"
      by blast
    from window_entries_keys[OF e] kr have "fst w' = w" by simp
    from window_of_name[OF w' w this] have w'eq: "w' = (w, d)" .
    from window_entry_item[OF e] obtain idx' item' where
      i': "idx' < length (trending_data now d store_id (events db))"
        "trending_data now d store_id (events db) ! idx' = item'"
      and e': "trending_view r =
         ((store_id, item_product item', w), trending_score item', velocity item', int idx' + 1)"
      unfolding w'eq by auto
    from i' have m: "item' \<in> set (trending_data now d store_id (events db))" by auto
    from e' kr have p: "item_product item' = item_product item" by simp
    from e' have "t_score r = trending_score item'" "t_velocity r = velocity item'"
      by (simp_all add: trending_view_def)
    with item_values[OF m] p show "t_score r =
          real_of_int (interaction_count now d store_id (events db) (item_product item) +
                       5 * purchase_count_in now d store_id (events db) (item_product item) +
                       2 * velocity_count now d store_id (events db) (item_product item)) \<and>
        t_velocity r =
          (if interaction_count now d store_id (events db) (item_product item) = 0 then 0
           else real_of_int (velocity_count now d store_id (events db) (item_product item)) /
                real_of_int (interaction_count now d store_id (events db) (item_product item)))"
      by simp
  qed
  from run first second show ?thesis by auto
qed


text \<open>
  In the sample table the product 2 has one interaction of the last hour, a purchase
  in its recent half: its entry for the window \<open>1h\<close> has the score 1 + 5 + 2 and the
  velocity 1.
\<close>

lemma ex_trending_data:
  "trending_data 10000 3600 1 (events ex_trending_db) =
     [\<lparr> item_product = 1, item_interaction_count = 2, item_purchase_count = 0, item_velocity = 0 \<rparr>,
      \<lparr> item_product = 2, item_interaction_count = 1, item_purchase_count = 1, item_velocity = 1 \<rparr>]"
  by (simp add: trending_data_def annotate_def window_rows_def ex_trending_db_def ex_event_def
      order_by_desc_def is_purchase_def)

lemma ex_trending_db_ok:
  "1 \<in> set (stores ex_trending_db)" "distinct (stores ex_trending_db)"
  "distinct (map p_id (catalog ex_trending_db))" "trending_ok (trending_products ex_trending_db)"
  by (simp_all add: ex_trending_db_def ex_product_def ex_product2_def trending_ok_def)

theorem trending_score_and_velocity_witness:
  "\<exists>r \<in> set (trending_products (snd (calculate_trending_products 10000 ex_trending_db 1))).
     t_store r = 1 \<and> t_product r = 2 \<and> t_calculation_window r = ''1h'' \<and>
     t_score r = 8 \<and> t_velocity r = 1"
proof -
  let ?item = "\<lparr> item_product = 2, item_interaction_count = 1, item_purchase_count = 1,
                 item_velocity = 1 \<rparr>"
  have w: "(''1h'', 3600) \<in> set windows" by (simp add: windows_def)
  have i: "?item \<in> set (trending_data 10000 3600 1 (events ex_trending_db))"
    by (simp only: ex_trending_data) simp
  have p: "item_product ?item \<in> p_id ` set (catalog ex_trending_db)"
    by (simp add: ex_trending_db_def ex_product2_def)
  have c: "interaction_count 10000 3600 1 (events ex_trending_db) 2 = 1"
    "purchase_count_in 10000 3600 1 (events ex_trending_db) 2 = 1"
    "velocity_count 10000 3600 1 (events ex_trending_db) 2 = 1"
    by (simp_all add: interaction_count_def purchase_count_in_def velocity_count_def
        in_window_def ex_trending_db_def ex_event_def is_purchase_def)
  have sel: "item_product ?item = 2" by simp
  note t = trending_score_and_velocity[OF ex_trending_db_ok w i p, unfolded sel c]
  from t obtain db' where
    run: "calculate_trending_products 10000 ex_trending_db 1 = (Calculated 1, db')"
    and ex: "\<exists>r \<in> set (trending_products db').
        t_store r = 1 \<and> t_product r = 2 \<and> t_calculation_window r = ''1h''"
    and val0: "\<forall>r \<in> set (trending_products db').
        t_store r = 1 \<and> t_product r = 2 \<and> t_calculation_window r = ''1h'' \<longrightarrow>
        t_score r = real_of_int (1 + 5 * 1 + 2 * 1) \<and>
        t_velocity r = (if (1::int) = 0 then 0 else real_of_int 1 / real_of_int 1)"
    by blast
  have val: "\<forall>r \<in> set (trending_products db').
        t_store r = 1 \<and> t_product r = 2 \<and> t_calculation_window r = ''1h'' \<longrightarrow>
        t_score r = 8 \<and> t_velocity r = 1"
    using val0 by simp
  from ex val have "\<exists>r \<in> set (trending_products db').
     t_store r = 1 \<and> t_product r = 2 \<and> t_calculation_window r = ''1h'' \<and>
     t_score r = 8 \<and> t_velocity r = 1" by blast
  with run show ?thesis by simp
qed

subsection \<open>C2: the ranks of a trending window\<close>





lemma window_rows_mem:
  "(pid, i) \<in> set (window_rows now d store tbl) \<longleftrightarrow> i \<in> set tbl \<and> in_window now d store pid i"
  by (induction tbl) (auto simp: window_rows_def in_window_def split: option.splits)

lemma annotate_product_set:
  "item_product ` set (annotate now d store tbl) =
     {pid. \<exists>i \<in> set tbl. in_window now d store pid i}"
proof -
  have "item_product ` set (annotate now d store tbl) =
          set (map item_product (annotate now d store tbl))" by simp
  also have "\<dots> = fst ` set (group_rows fst (window_rows now d store tbl))"
    by (simp only: annotate_products) simp
  also have "\<dots> = fst ` set (window_rows now d store tbl)"
    by (rule group_rows_keys)
  also have "\<dots> = {pid. \<exists>i \<in> set tbl. in_window now d store pid i}"
  proof (intro set_eqI iffI)
    fix pid assume "pid \<in> fst ` set (window_rows now d store tbl)"
    then obtain i where "(pid, i) \<in> set (window_rows now d store tbl)" by auto
    then show "pid \<in> {pid. \<exists>i \<in> set tbl. in_window now d store pid i}"
      by (auto simp: window_rows_mem)
  next
    fix pid assume "pid \<in> {pid. \<exists>i \<in> set tbl. in_window now d store pid i}"
    then obtain i where "i \<in> set tbl" "in_window now d store pid i" by auto
    then have "(pid, i) \<in> set (window_rows now d store tbl)" by (simp add: window_rows_mem)
    then show "pid \<in> fst ` set (window_rows now d store tbl)" by force
  qed
  finally show ?thesis .
qed

lemma no_item_no_interaction:
  assumes "pid \<notin> item_product ` set (annotate now d store tbl)"
  shows "interaction_count now d store tbl pid = 0"
proof -
  from assms have "\<forall>i \<in> set tbl. \<not> in_window now d store pid i"
    unfolding annotate_product_set by blast
  then have "filter (in_window now d store pid) tbl = []" by (simp add: filter_empty_conv)
  then show ?thesis by (simp add: interaction_count_def)
qed


text \<open>
  The order of the items is that of the query, by \<open>interaction_count\<close>: equal counts may
  follow each other, and the score is computed from the items afterwards.
\<close>

lemma trending_data_sorted:
  "sorted_wrt (\<lambda>a b. interaction_count now d store tbl (item_product b) \<le>
                      interaction_count now d store tbl (item_product a))
     (trending_data now d store tbl)"
proof -
  have s: "sorted_wrt (\<lambda>a b. item_interaction_count b \<le> item_interaction_count a)
             (trending_data now d store tbl)"
    unfolding trending_data_def by (intro sorted_wrt_take sorted_order_by_desc)
  have "\<And>x. x \<in> set (trending_data now d store tbl) \<Longrightarrow>
          item_interaction_count x = interaction_count now d store tbl (item_product x)"
    using set_trending_data annotate_counts by blast
  with s show ?thesis
    by (auto elim!: sorted_wrt_mono_rel[rotated])
qed

text \<open>A product that is not among the items of the window has no more interactions.\<close>

lemma trending_data_top:
  assumes "pid \<notin> item_product ` set (trending_data now d store tbl)"
    and "item \<in> set (trending_data now d store tbl)"
  shows "interaction_count now d store tbl pid \<le>
           interaction_count now d store tbl (item_product item)"
proof (cases "pid \<in> item_product ` set (annotate now d store tbl)")
  case False
  from no_item_no_interaction[OF this] interaction_count_nonneg[of now d store tbl "item_product item"]
  show ?thesis by simp
next
  case True
  let ?S = "order_by_desc item_interaction_count (annotate now d store tbl)"
  from True obtain x where x: "x \<in> set (annotate now d store tbl)" and px: "item_product x = pid"
    by auto
  from x have "x \<in> set ?S" by (simp add: set_order_by_desc)
  then have "x \<in> set (take 50 ?S) \<union> set (drop 50 ?S)"
    by (metis append_take_drop_id set_append)
  moreover have "x \<notin> set (take 50 ?S)"
    using assms(1) px unfolding trending_data_def by blast
  ultimately have xd: "x \<in> set (drop 50 ?S)" by simp
  have "sorted_wrt (\<lambda>a b. item_interaction_count b \<le> item_interaction_count a)
          (take 50 ?S @ drop 50 ?S)"
    by (simp only: append_take_drop_id sorted_order_by_desc)
  then have "\<forall>a \<in> set (take 50 ?S). \<forall>b \<in> set (drop 50 ?S).
               item_interaction_count b \<le> item_interaction_count a"
    by (simp only: sorted_wrt_append) simp
  with xd assms(2) have le: "item_interaction_count x \<le> item_interaction_count item"
    unfolding trending_data_def by blast
  from assms(2) set_trending_data have "item \<in> set (annotate now d store tbl)" by blast
  from annotate_counts[OF this] annotate_counts[OF x] le px show ?thesis by simp
qed










subsection \<open>C7: the labels of the behavior profile\<close>

text \<open>
  What lines 22 to 98 compute for the scenario, were they to run with no session: three
  interactions, one purchase, the labels \<open>rare\<close> and \<open>focused\<close>, an average order value
  of 50.
\<close>

lemma rebuild_scenario:
  "get_or_create_profile ex_user [] = Inr (p, tbl) \<Longrightarrow>
   total_interactions (rebuild dbms (b_products ex_behavior_db) (b_interactions ex_behavior_db) [] p) = 3 \<and>
   total_purchases (rebuild dbms (b_products ex_behavior_db) (b_interactions ex_behavior_db) [] p) = 1 \<and>
   purchase_frequency (rebuild dbms (b_products ex_behavior_db) (b_interactions ex_behavior_db) [] p) = ''rare'' \<and>
   browsing_pattern (rebuild dbms (b_products ex_behavior_db) (b_interactions ex_behavior_db) [] p) = ''focused'' \<and>
   avg_order_value (rebuild dbms (b_products ex_behavior_db) (b_interactions ex_behavior_db) [] p) = 50"
  by (auto simp: rebuild_def order_value_def behavioral_patterns_def price_stats_def
      last_active_def session_metrics_def interaction_frequencies_def count_type_def
      purchases_of_def purchase_frequency_label_def browsing_pattern_label_def
      ex_behavior_db_def ex_event_def get_or_create_profile_def get_by_def Let_def
      split: option.splits)

lemma user_sessions_raises: "user_sessions db u = Inl AttributeError"
  by (simp add: user_sessions_def user_reverse_accessors_def)

text \<open>
  For any user and any database the function ends in one of three ways, and none of them
  saves a rebuilt profile: the table of profiles is as before, or has one more row that
  holds the column defaults.
\<close>

lemma update_user_behavior_profile_never_saves:
  "behavior_profiles (snd (update_user_behavior_profile dbms db user_id)) = behavior_profiles db \<or>
   (\<exists>p. behavior_profiles (snd (update_user_behavior_profile dbms db user_id)) =
          behavior_profiles db @ [p] \<and>
        total_interactions p = 0 \<and> total_purchases p = 0 \<and> purchase_frequency p = [] \<and>
        browsing_pattern p = [] \<and> preferred_categories p = [] \<and> avg_order_value p = 0)"
  by (auto simp: update_user_behavior_profile_def user_sessions_raises get_or_create_profile_def
      Let_def split: sum.splits py_error.splits prod.splits)

text \<open>
  C7. The labels and the scenario are what lines 77 to 98 compute, but the function does not
  get there: for the user of the scenario it raises \<open>AttributeError\<close> at line 30, after
  \<open>get_or_create\<close> has stored a profile with the column defaults and before
  \<open>profile.save()\<close>. The stored profile has no interaction, no purchase, no label and an
  average order value of 0.
\<close>

theorem update_user_behavior_profile_scenario:
  "fst (update_user_behavior_profile dbms ex_behavior_db 1) = Some AttributeError \<and>
   map (\<lambda>p. (total_interactions p, total_purchases p, purchase_frequency p, avg_order_value p))
     (behavior_profiles (snd (update_user_behavior_profile dbms ex_behavior_db 1))) = [(0, 0, [], 0)]"
  by (simp add: update_user_behavior_profile_def user_sessions_raises get_or_create_profile_def
      get_by_def ex_behavior_db_def ex_user_def Let_def)

subsection \<open>C8: the preferred categories\<close>

lemma ex_views_categories:
  "map (\<lambda>i. (i_user i, i_product i, i_weight i)) (b_interactions ex_category_db) =
     map (\<lambda>n. (Some 1, Some n, 1 / 10)) [1, 2, 3, 4, 5, 6, 7, 8, 9, 10, 11] \<and>
   map (\<lambda>p. (p_id p, p_category p)) (b_products ex_category_db) = ex_categories"
  by (simp add: ex_category_db_def ex_views_def ex_catalog_def ex_categories_def ex_event_def)

text \<open>
  C8. The preferred categories are filled at lines 50 to 61, after the sessions are read
  at line 30, and stored by \<open>profile.save()\<close> at line 100. The user \<open>U\<close> has viewed
  one product in each of eleven categories. Whatever the database does with the sums
  and the ties, the function raises \<open>AttributeError\<close> at line 30; the only profile
  stored for the user is the one \<open>get_or_create\<close> inserted, and it has no preferred
  category, after a first run and after a second one.
\<close>

theorem preferred_categories_never_stored:
  "fst (update_user_behavior_profile dbms ex_category_db 1) = Some AttributeError \<and>
   map (\<lambda>p. (bp_user p, preferred_categories p))
     (behavior_profiles (snd (update_user_behavior_profile dbms ex_category_db 1))) = [(1, [])] \<and>
   fst (update_user_behavior_profile dbms
          (snd (update_user_behavior_profile dbms ex_category_db 1)) 1) = Some AttributeError \<and>
   map (\<lambda>p. (bp_user p, preferred_categories p))
     (behavior_profiles (snd (update_user_behavior_profile dbms
          (snd (update_user_behavior_profile dbms ex_category_db 1)) 1))) = [(1, [])]"
  by (simp add: update_user_behavior_profile_def user_sessions_raises get_or_create_profile_def
      get_by_def ex_category_db_def ex_user_def Let_def)

end
